theory Spec2Isabelle
  imports Complex_Main "HOL-Library.Multiset"
begin

section \<open>Adversarial variational optimisation of a detector offset\<close>

text \<open>
  The development follows the notebook \<^verbatim>\<open>day4-Fri/Pythia-Tune-AVO.ipynb\<close>.
  Tensors of 32-bit floats are modelled by lists of reals with exact arithmetic: a tensor
  of shape \<open>(d,)\<close> is a \<open>real list\<close> of length \<open>d\<close>, one of shape \<open>(N, d)\<close> a list of
  \<open>N\<close> rows. Rounding, overflow and NaN of the machine numbers are outside the model.
\<close>

subsection \<open>The variational distribution (cell 24)\<close>

text \<open>
  \<^verbatim>\<open>tf.nn.softplus\<close>; the notebook states the function it computes:
  \<open>\<sigma> = log(1 + exp(\<sigma>'))\<close>.
\<close>

definition softplus :: "real \<Rightarrow> real" where
  "softplus x = ln (1 + exp x)"

text \<open>\<^verbatim>\<open>tf.reduce_sum\<close> over every axis of a vector, and \<^verbatim>\<open>tf.reduce_mean\<close>.
  On an empty tensor the mean is NaN in the library; the quotient below is \<open>0\<close> there.\<close>

definition reduce_sum :: "real list \<Rightarrow> real" where
  "reduce_sum xs = sum_list xs"

definition reduce_mean :: "real list \<Rightarrow> real" where
  "reduce_mean xs = sum_list xs / real (length xs)"

text \<open>\<^verbatim>\<open>detector_params_sigma = tf.nn.softplus(detector_params_sigma_raw)\<close>\<close>

definition detector_params_sigma :: "real list \<Rightarrow> real list" where
  "detector_params_sigma sigma_raw = map softplus sigma_raw"

text \<open>
  \<^verbatim>\<open>neg_log_prob = tf.reduce_sum(tf.log(sigma))
       + tf.reduce_sum(0.5 * (detector_params - mean[None, :]) ** 2 / sigma[None, :] ** 2, axis=1)\<close>

  The first summand is a scalar, the second has one entry per row of \<open>detector_params\<close>;
  \<open>mean\<close> and \<open>sigma\<close> are laid along the columns of each row. The three have as many
  columns (one): the placeholder \<open>detector_params\<close> has shape \<open>(None, 1)\<close> and the two
  variables have shape \<open>(1,)\<close>.
\<close>

definition quadratic_row :: "real list \<Rightarrow> real list \<Rightarrow> real list \<Rightarrow> real list" where
  "quadratic_row mean sigma row =
     map (\<lambda>(\<theta>, \<mu>, \<sigma>). 0.5 * (\<theta> - \<mu>) ^ 2 / \<sigma> ^ 2) (zip row (zip mean sigma))"

definition neg_log_prob :: "real list \<Rightarrow> real list \<Rightarrow> real list list \<Rightarrow> real list" where
  "neg_log_prob mean sigma detector_params =
     map (\<lambda>row. reduce_sum (map ln sigma) + reduce_sum (quadratic_row mean sigma row))
       detector_params"

subsection \<open>The loss, its gradients and the optimiser (cells 24, 27 and 28)\<close>

text \<open>
  \<^verbatim>\<open>neg_log_prob * proba\<close> multiplies two vectors entry by entry; the library
  stretches a vector of length one along the other and raises on any other pair of
  different lengths.
\<close>

datatype error =
    SimulatorFailure
  | NothingRequested
  | ConcatenateError
  | ReshapeError
  | FeedShapeError
  | IncompatibleShapes
  | NotANumber
  | IndexError

definition broadcast_mul :: "real list \<Rightarrow> real list \<Rightarrow> error + real list" where
  "broadcast_mul xs ys =
     (if length xs = length ys then Inr (map (\<lambda>(x, y). x * y) (zip xs ys))
      else if length xs = 1 then Inr (map (\<lambda>y. hd xs * y) ys)
      else if length ys = 1 then Inr (map (\<lambda>x. x * hd ys) xs)
      else Inl IncompatibleShapes)"

text \<open>\<^verbatim>\<open>detector_params_loss = tf.reduce_mean(neg_log_prob * proba)\<close>\<close>

definition detector_params_loss ::
  "real list \<Rightarrow> real list \<Rightarrow> real list list \<Rightarrow> real list \<Rightarrow> error + real" where
  "detector_params_loss mean sigma_raw detector_params proba =
     (case broadcast_mul (neg_log_prob mean (detector_params_sigma sigma_raw) detector_params) proba of
        Inl e \<Rightarrow> Inl e
      | Inr products \<Rightarrow> Inr (reduce_mean products))"

text \<open>The derivative of \<open>softplus\<close>, and the derivatives of one entry of
  \<open>neg_log_prob\<close> in the two variables, as reverse-mode differentiation of the graph
  yields them.\<close>

definition sigmoid :: "real \<Rightarrow> real" where
  "sigmoid x = exp x / (1 + exp x)"

definition neg_log_prob_d_mean :: "real \<Rightarrow> real \<Rightarrow> real \<Rightarrow> real" where
  "neg_log_prob_d_mean \<mu> s \<theta> = - (\<theta> - \<mu>) / (softplus s) ^ 2"

definition neg_log_prob_d_sigma_raw :: "real \<Rightarrow> real \<Rightarrow> real \<Rightarrow> real" where
  "neg_log_prob_d_sigma_raw \<mu> s \<theta> =
     (1 / softplus s - (\<theta> - \<mu>) ^ 2 / (softplus s) ^ 3) * sigmoid s"

text \<open>The summand of the loss for one sample \<open>\<theta>\<close> with score \<open>p\<close>, as a function of the
  two variables.\<close>

definition entry_loss :: "real \<Rightarrow> real \<Rightarrow> real \<times> real \<Rightarrow> real" where
  "entry_loss \<mu> s = (\<lambda>(\<theta>, p). (ln (softplus s) + 0.5 * (\<theta> - \<mu>) ^ 2 / (softplus s) ^ 2) * p)"

text \<open>Modelled from the spec: "one gradient-descent step (Adam, fixed learning rate)", by an
  "optimizer object performing one gradient step given a scalar loss and an explicit list
  of trainable variables". The notebook builds it as
  \<^verbatim>\<open>tf.train.AdamOptimizer(learning_rate=0.02)\<close>; the decay rates and \<open>\<epsilon>\<close> are the
  library's defaults, and the step is the library's documented update of one variable
  \<open>x\<close> with accumulators \<open>m\<close>, \<open>v\<close> on the gradient \<open>g\<close>.
\<close>

definition learning_rate :: real where
  "learning_rate = 0.02"

definition beta1 :: real where
  "beta1 = 0.9"

definition beta2 :: real where
  "beta2 = 0.999"

definition epsilon :: real where
  "epsilon = 1 / 10 ^ 8"

definition apply_adam :: "real \<Rightarrow> real \<Rightarrow> real \<times> real \<times> real \<Rightarrow> real \<Rightarrow> real \<times> real \<times> real" where
  "apply_adam b1_power b2_power xmv g =
     (case xmv of (x, m, v) \<Rightarrow>
        let lr_t = learning_rate * sqrt (1 - b2_power) / (1 - b1_power);
            m_t = beta1 * m + (1 - beta1) * g;
            v_t = beta2 * v + (1 - beta2) * g * g
        in (x - lr_t * m_t / (sqrt v_t + epsilon), m_t, v_t))"

text \<open>
  The state of the session: the two variables of the distribution (each of static shape
  \<open>(1,)\<close>, kept as its single component), the optimiser's accumulators for them and its
  two running powers, the weights of the discriminator network, and the position reached
  in the stream of random numbers.
\<close>

record 'w session =
  detector_params_mean :: real
  detector_params_sigma_raw :: real
  adam_m_mean :: real
  adam_v_mean :: real
  adam_m_sigma_raw :: real
  adam_v_sigma_raw :: real
  beta1_power :: real
  beta2_power :: real
  discriminator_weights :: 'w
  random_state :: nat

text \<open>\<^verbatim>\<open>tf_session.run(tf.global_variables_initializer())\<close>: the variables take the
  initial values they were declared with (\<open>[0.0]\<close> and \<open>[2.0]\<close> in cell 24).\<close>

definition global_variables_initializer :: "'w \<Rightarrow> nat \<Rightarrow> 'w session" where
  "global_variables_initializer w seed =
     \<lparr>detector_params_mean = 0.0, detector_params_sigma_raw = 2.0,
      adam_m_mean = 0, adam_v_mean = 0, adam_m_sigma_raw = 0, adam_v_sigma_raw = 0,
      beta1_power = beta1, beta2_power = beta2,
      discriminator_weights = w, random_state = seed\<rparr>"

text \<open>\<^verbatim>\<open>get_distribution_params = lambda : tf_session.run([mean, sigma])\<close>\<close>

definition get_distribution_params :: "'w session \<Rightarrow> real list \<times> real list" where
  "get_distribution_params st =
     ([detector_params_mean st], detector_params_sigma [detector_params_sigma_raw st])"

subsection \<open>The simulator pool and \<open>get_data\<close> (cells 10 and 11)\<close>

type_synonym image = "real list"

type_synonym configuration = "real list"

text \<open>Modelled from the spec: the simulator boundary \<open>submit(configuration)\<close> (enqueue),
  \<open>retrieve()\<close> (blocking dequeue of one completed unit, a pair of the configuration and
  its batch of images) and \<open>pending_count()\<close>; the pool itself (\<^verbatim>\<open>pythiamill\<close>) is not
  part of the notebook. What the workers do is not determined by the program: the
  \<open>t\<close>-th call of \<open>retrieve\<close> meets the event \<open>workers t\<close>, which either completes one of
  the outstanding requests (any of them: workers finish in any order) with a batch of
  images, or fails, and then \<open>retrieve\<close> raises and the request stays outstanding.
\<close>

datatype worker_event = Deliver nat "image list" | Crash

record mill =
  pending :: "configuration list"
  clock :: nat

definition request :: "mill \<Rightarrow> configuration \<Rightarrow> mill" where
  "request m args = m\<lparr>pending := pending m @ [args]\<rparr>"

definition n_requests :: "mill \<Rightarrow> nat" where
  "n_requests m = length (pending m)"

definition retrieve ::
  "(nat \<Rightarrow> worker_event) \<Rightarrow> mill \<Rightarrow> (error + configuration \<times> image list) \<times> mill" where
  "retrieve workers m =
     (if pending m = [] then (Inl NothingRequested, m)
      else case workers (clock m) of
        Crash \<Rightarrow> (Inl SimulatorFailure, m\<lparr>clock := Suc (clock m)\<rparr>)
      | Deliver i batch \<Rightarrow>
          let j = i mod length (pending m)
          in (Inr (pending m ! j, batch),
              m\<lparr>pending := take j (pending m) @ drop (Suc j) (pending m),
                clock := Suc (clock m)\<rparr>))"

text \<open>\<^verbatim>\<open>for args in detector_configurations: mill.request(*args)\<close>\<close>

fun request_all :: "mill \<Rightarrow> configuration list \<Rightarrow> mill" where
  "request_all m [] = m"
| "request_all m (args # rest) = request_all (request m args) rest"

text \<open>\<^verbatim>\<open>data = [mill.retrieve() for _ in range(len(detector_configurations))]\<close>;
  a call that raises ends the comprehension.\<close>

fun retrieve_n ::
  "(nat \<Rightarrow> worker_event) \<Rightarrow> nat \<Rightarrow> mill \<Rightarrow> (error + (configuration \<times> image list) list) \<times> mill" where
  "retrieve_n workers 0 m = (Inr [], m)"
| "retrieve_n workers (Suc k) m =
     (case retrieve workers m of
        (Inl e, m') \<Rightarrow> (Inl e, m')
      | (Inr unit, m') \<Rightarrow>
          (case retrieve_n workers k m' of
             (Inl e, m'') \<Rightarrow> (Inl e, m'')
           | (Inr units, m'') \<Rightarrow> (Inr (unit # units), m'')))"

text \<open>The \<^verbatim>\<open>finally\<close> block: \<^verbatim>\<open>while mill.n_requests > 0: mill.retrieve()\<close>.
  A call that raises there ends the loop with that exception.\<close>

function drain :: "(nat \<Rightarrow> worker_event) \<Rightarrow> mill \<Rightarrow> error option \<times> mill" where
  "drain workers m =
     (if n_requests m > 0 then
        (case retrieve workers m of
           (Inl e, m') \<Rightarrow> (Some e, m')
         | (Inr unit, m') \<Rightarrow> drain workers m')
      else (None, m))"
  by pat_completeness auto
termination
proof (relation "measure (\<lambda>(workers, m). length (pending m))")
  show "wf (measure (\<lambda>(workers, m). length (pending m)))"
    by simp
next
  fix workers :: "nat \<Rightarrow> worker_event" and m x1 m' unit
  assume pos: "0 < n_requests m" and r: "(x1, m') = retrieve workers m" and ok: "x1 = Inr unit"
  from pos have ne: "pending m \<noteq> []"
    by (simp add: n_requests_def)
  have "length (pending m') < length (pending m)"
  proof (cases "workers (clock m)")
    case (Deliver i batch)
    define j where "j = i mod length (pending m)"
    have "j < length (pending m)"
      using ne by (simp add: j_def)
    then have "length (take j (pending m) @ drop (Suc j) (pending m)) < length (pending m)"
      by simp
    moreover have "pending m' = take j (pending m) @ drop (Suc j) (pending m)"
      using r ok ne Deliver by (simp add: retrieve_def Let_def j_def)
    ultimately show ?thesis
      by simp
  next
    case Crash
    with r ok ne show ?thesis
      by (auto simp: retrieve_def)
  qed
  then show "((workers, m'), (workers, m)) \<in> measure (\<lambda>(workers, m). length (pending m))"
    by simp
qed

text \<open>
  \<^verbatim>\<open>np.vstack\<close> of a list of blocks of rows: an empty list is refused, as are rows of
  different shapes; a row is kept as the flat list of its entries.
\<close>

definition vstack :: "'a list list list \<Rightarrow> error + 'a list list" where
  "vstack blocks =
     (if blocks = [] then Inl ConcatenateError
      else let rows = concat blocks
           in if list_all (\<lambda>r. length r = length (hd rows)) rows then Inr rows
              else Inl ConcatenateError)"

text \<open>\<^verbatim>\<open>np.array([params] * samples.shape[0], dtype='float32')\<close>: one copy of the
  configuration for each image of the unit. Of no copies, numpy makes an array of shape
  \<open>(0,)\<close>, which \<^verbatim>\<open>vstack\<close> takes as one row without entries.\<close>

definition params_block :: "configuration \<Rightarrow> image list \<Rightarrow> real list list" where
  "params_block params samples =
     (if samples = [] then [[]] else replicate (length samples) params)"

text \<open>\<^verbatim>\<open>samples.reshape(-1, 32, 32, 1)\<close>: the entries, in order, cut into images of
  \<open>32 * 32 * 1\<close> values; refused when the number of entries is no multiple of that.\<close>

function chunks :: "nat \<Rightarrow> 'a list \<Rightarrow> 'a list list" where
  "chunks n xs = (if n = 0 \<or> xs = [] then [] else take n xs # chunks n (drop n xs))"
  by pat_completeness auto
termination
  by (relation "measure (\<lambda>(n, xs). length xs)") auto

definition image_size :: nat where
  "image_size = 32 * 32 * 1"

definition reshape_images :: "real list list \<Rightarrow> error + image list" where
  "reshape_images rows =
     (let flat = concat rows
      in if length flat mod image_size = 0 then Inr (chunks image_size flat)
         else Inl ReshapeError)"

text \<open>The body of the \<^verbatim>\<open>try\<close> block after the requests are sent.\<close>

definition assemble ::
  "(configuration \<times> image list) list \<Rightarrow> error + real list list \<times> image list" where
  "assemble data =
     (case vstack (map snd data) of
        Inl e \<Rightarrow> Inl e
      | Inr samples \<Rightarrow>
          (case vstack (map (\<lambda>(params, samples). params_block params samples) data) of
             Inl e \<Rightarrow> Inl e
           | Inr params \<Rightarrow>
               (case reshape_images samples of
                  Inl e \<Rightarrow> Inl e
                | Inr images \<Rightarrow> Inr (params, images))))"

text \<open>\<^verbatim>\<open>get_data(mill, detector_configurations)\<close>. The result is the returned pair or the
  exception that leaves the function, together with the pool as the call leaves it. An
  exception raised in the \<^verbatim>\<open>finally\<close> block replaces the outcome of the \<^verbatim>\<open>try\<close> block.\<close>

definition get_data ::
  "(nat \<Rightarrow> worker_event) \<Rightarrow> mill \<Rightarrow> configuration list
     \<Rightarrow> (error + real list list \<times> image list) \<times> mill" where
  "get_data workers m detector_configurations =
     (let m1 = request_all m detector_configurations;
          (retrieved, m2) = retrieve_n workers (length detector_configurations) m1;
          outcome = (case retrieved of Inl e \<Rightarrow> Inl e | Inr data \<Rightarrow> assemble data);
          (raised, m3) = drain workers m2
      in (case raised of Some e \<Rightarrow> (Inl e, m3) | None \<Rightarrow> (outcome, m3)))"

subsection \<open>The two training steps (cells 24 to 30)\<close>

text \<open>Modelled from the spec: the neural network boundary, "a differentiable classifier with
  \<open>fit(images, labels, epochs, batch_size)\<close> and \<open>score(images) -> probabilities\<close>"; the
  layers of the network and its training are the library's. The environment also holds
  what else the program reads and does not compute: the standard normal numbers behind
  \<^verbatim>\<open>tf.random_normal\<close>, the behaviour of the workers of the pool, and the contents of
  freshly allocated arrays.
\<close>

record 'w environment =
  discriminator :: "'w \<Rightarrow> image \<Rightarrow> real"
  discriminator_fit :: "image list \<Rightarrow> real list \<Rightarrow> nat \<Rightarrow> 'w \<Rightarrow> 'w"
  standard_normal :: "nat \<Rightarrow> real"
  workers :: "nat \<Rightarrow> worker_event"
  uninitialized :: "nat \<Rightarrow> real"

text \<open>\<^verbatim>\<open>proba = discriminator(X)[:, 0]\<close>\<close>

definition proba :: "'w environment \<Rightarrow> 'w session \<Rightarrow> image list \<Rightarrow> real list" where
  "proba env st X = map (discriminator env (discriminator_weights st)) X"

text \<open>
  \<^verbatim>\<open>tf_session.run(distribution_opt, feed_dict={X: ..., detector_params: ...})\<close> with
  \<^verbatim>\<open>distribution_opt = AdamOptimizer(learning_rate=0.02).minimize(detector_params_loss,
  var_list=[detector_params_mean, detector_params_sigma_raw])\<close>.
  The feeds must have the shapes of their placeholders, \<open>(None, 32, 32, 1)\<close> and
  \<open>(None, 1)\<close>. The gradient of the mean of the products is the mean of the products of
  the derivatives with \<open>proba\<close>, which is a constant in the two variables of \<open>var_list\<close>.
  On empty feeds the mean is not a number, and so are the variables afterwards.
\<close>

definition distribution_opt ::
  "'w environment \<Rightarrow> 'w session \<Rightarrow> image list \<Rightarrow> real list list \<Rightarrow> error + 'w session" where
  "distribution_opt env st X detector_params =
     (if \<not> (list_all (\<lambda>x. length x = image_size) X
            \<and> list_all (\<lambda>row. length row = 1) detector_params)
      then Inl FeedShapeError
      else
        let \<mu> = detector_params_mean st;
            s = detector_params_sigma_raw st;
            thetas = concat detector_params
        in case (broadcast_mul (map (neg_log_prob_d_mean \<mu> s) thetas) (proba env st X),
                 broadcast_mul (map (neg_log_prob_d_sigma_raw \<mu> s) thetas) (proba env st X)) of
             (Inr d_mean, Inr d_sigma_raw) \<Rightarrow>
               if d_mean = [] then Inl NotANumber
               else
                 (case (apply_adam (beta1_power st) (beta2_power st)
                          (\<mu>, adam_m_mean st, adam_v_mean st) (reduce_mean d_mean),
                        apply_adam (beta1_power st) (beta2_power st)
                          (s, adam_m_sigma_raw st, adam_v_sigma_raw st) (reduce_mean d_sigma_raw)) of
                    ((\<mu>', m1, v1), (s', m2, v2)) \<Rightarrow>
                      Inr (st\<lparr>detector_params_mean := \<mu>', detector_params_sigma_raw := s',
                              adam_m_mean := m1, adam_v_mean := v1,
                              adam_m_sigma_raw := m2, adam_v_sigma_raw := v2,
                              beta1_power := beta1_power st * beta1,
                              beta2_power := beta2_power st * beta2\<rparr>))
           | _ \<Rightarrow> Inl IncompatibleShapes)"

text \<open>\<^verbatim>\<open>tf_session.run(params_sample, {n: k})\<close> with \<^verbatim>\<open>params_sample =
  tf.random_normal(mean=detector_params_mean, stddev=detector_params_sigma, shape=(n, 1))\<close>\<close>

definition params_sample ::
  "'w environment \<Rightarrow> 'w session \<Rightarrow> nat \<Rightarrow> real list list \<times> 'w session" where
  "params_sample env st k =
     (map (\<lambda>i. [standard_normal env (random_state st + i) * softplus (detector_params_sigma_raw st)
                  + detector_params_mean st]) [0..<k],
      st\<lparr>random_state := random_state st + k\<rparr>)"

text \<open>
  The state of the notebook: the session, the pool, the reference images, the two
  history arrays.
\<close>

record 'w world =
  session :: "'w session"
  pool :: mill
  X_true_train :: "image list"
  generator_mean_history :: "real list"
  generator_sigma_history :: "real list"

text \<open>\<^verbatim>\<open>train_discriminator(n_samples, n_epoches)\<close>\<close>

definition train_discriminator ::
  "'w environment \<Rightarrow> nat \<Rightarrow> nat \<Rightarrow> 'w world \<Rightarrow> error + 'w world" where
  "train_discriminator env n_samples n_epoches wd =
     (case params_sample env (session wd) (n_samples div 8) of
        (sample_of_detector_params, st1) \<Rightarrow>
          (case get_data (workers env) (pool wd) sample_of_detector_params of
             (Inl e, m1) \<Rightarrow> Inl e
           | (Inr (params, X_gen_train), m1) \<Rightarrow>
               (case vstack [X_gen_train, X_true_train wd] of
                  Inl e \<Rightarrow> Inl e
                | Inr X_train \<Rightarrow>
                    let y_train = replicate (length X_gen_train) 0
                                    @ replicate (length (X_true_train wd)) 1
                    in Inr (wd\<lparr>session := st1\<lparr>discriminator_weights :=
                                    discriminator_fit env X_train y_train n_epoches
                                      (discriminator_weights st1)\<rparr>,
                                pool := m1\<rparr>))))"

text \<open>\<^verbatim>\<open>train_generator()\<close>\<close>

definition train_generator :: "'w environment \<Rightarrow> 'w world \<Rightarrow> error + 'w world" where
  "train_generator env wd =
     (case params_sample env (session wd) (2 ^ 8) of
        (sample_of_detector_params, st1) \<Rightarrow>
          (case get_data (workers env) (pool wd) sample_of_detector_params of
             (Inl e, m1) \<Rightarrow> Inl e
           | (Inr (params_train, X_gen_train), m1) \<Rightarrow>
               (case distribution_opt env st1 X_gen_train params_train of
                  Inl e \<Rightarrow> Inl e
                | Inr st2 \<Rightarrow>
                    Inr (wd\<lparr>session := st2, pool := m1\<rparr>))))"

subsection \<open>Pretraining and the optimisation loop (cells 33 and 35)\<close>

definition n_iterations :: nat where
  "n_iterations = 256"

text \<open>\<^verbatim>\<open>history[i] = value\<close> on an array: an index out of range raises.\<close>

definition store_at :: "real list \<Rightarrow> nat \<Rightarrow> real \<Rightarrow> error + real list" where
  "store_at history i x = (if i < length history then Inr (history[i := x]) else Inl IndexError)"

text \<open>The body of the loop, without the plotting.\<close>

definition iteration :: "'w environment \<Rightarrow> nat \<Rightarrow> 'w world \<Rightarrow> error + 'w world" where
  "iteration env i wd =
     (case train_discriminator env (2 ^ 12) 1 wd of
        Inl e \<Rightarrow> Inl e
      | Inr wd1 \<Rightarrow>
          (case train_generator env wd1 of
             Inl e \<Rightarrow> Inl e
           | Inr wd2 \<Rightarrow>
               (case get_distribution_params (session wd2) of
                  (m, s) \<Rightarrow>
                    (case store_at (generator_mean_history wd2) i (m ! 0) of
                       Inl e \<Rightarrow> Inl e
                     | Inr mean_history \<Rightarrow>
                         (case store_at (generator_sigma_history wd2) i (s ! 0) of
                            Inl e \<Rightarrow> Inl e
                          | Inr sigma_history \<Rightarrow>
                              Inr (wd2\<lparr>generator_mean_history := mean_history,
                                       generator_sigma_history := sigma_history\<rparr>))))))"

text \<open>\<^verbatim>\<open>for i in range(n_iterations): ...\<close>; an exception ends the run.\<close>

fun iterations :: "'w environment \<Rightarrow> nat list \<Rightarrow> 'w world \<Rightarrow> error + 'w world" where
  "iterations env [] wd = Inr wd"
| "iterations env (i # rest) wd =
     (case iteration env i wd of
        Inl e \<Rightarrow> Inl e
      | Inr wd' \<Rightarrow> iterations env rest wd')"

text \<open>Cell 33: \<^verbatim>\<open>train_discriminator(n_samples=2**16, n_epoches=4, plot=True)\<close>\<close>

definition pretraining :: "'w environment \<Rightarrow> 'w world \<Rightarrow> error + 'w world" where
  "pretraining env wd = train_discriminator env (2 ^ 16) 4 wd"

text \<open>Cell 35: the two arrays are allocated with \<^verbatim>\<open>np.ndarray(shape=(n_iterations, ))\<close>,
  which leaves their contents as they are in memory, and the loop fills them.\<close>

definition variational_optimization :: "'w environment \<Rightarrow> 'w world \<Rightarrow> error + 'w world" where
  "variational_optimization env wd =
     iterations env [0..<n_iterations]
       (wd\<lparr>generator_mean_history := map (uninitialized env) [0..<n_iterations],
           generator_sigma_history :=
             map (\<lambda>i. uninitialized env (n_iterations + i)) [0..<n_iterations]\<rparr>)"

text \<open>Cells 33 and 35 in sequence.\<close>

definition orchestrator :: "'w environment \<Rightarrow> 'w world \<Rightarrow> error + 'w world" where
  "orchestrator env wd =
     (case pretraining env wd of
        Inl e \<Rightarrow> Inl e
      | Inr wd1 \<Rightarrow> variational_optimization env wd1)"

subsection \<open>A small environment for concrete runs\<close>

text \<open>
  A discriminator whose score is its single weight, a pool whose workers complete the
  oldest request with a batch of eight blank images, one whose workers always fail, one
  whose workers fail once and work from then on, and one whose workers complete the second
  oldest request first, with a batch of eight images of ones.
\<close>

definition blank_image :: image where
  "blank_image = replicate image_size 0"

definition blank_batch :: "image list" where
  "blank_batch = replicate 8 blank_image"

definition steady_env :: "real environment" where
  "steady_env =
     \<lparr>discriminator = (\<lambda>w x. w), discriminator_fit = (\<lambda>x y epochs w. w),
      standard_normal = (\<lambda>i. 0), workers = (\<lambda>t. Deliver 0 blank_batch),
      uninitialized = (\<lambda>i. 0)\<rparr>"

definition broken_workers :: "nat \<Rightarrow> worker_event" where
  "broken_workers t = Crash"

definition recovering_workers :: "nat \<Rightarrow> worker_event" where
  "recovering_workers t = (if t = 0 then Crash else Deliver 0 blank_batch)"

definition bright_image :: image where
  "bright_image = replicate image_size 1"

definition bright_batch :: "image list" where
  "bright_batch = replicate 8 bright_image"

definition reordering_workers :: "nat \<Rightarrow> worker_event" where
  "reordering_workers t = (if t = 0 then Deliver 1 bright_batch else Deliver 0 blank_batch)"

definition idle_mill :: mill where
  "idle_mill = \<lparr>pending = [], clock = 0\<rparr>"

text \<open>The session after one step on one sample with score \<open>1\<close>, and the same session
  once the discriminator's score has become \<open>0\<close>.\<close>

definition stepped_session :: "real session" where
  "stepped_session =
     (case distribution_opt steady_env (global_variables_initializer 1 0) [blank_image] [[1]] of
        Inr st \<Rightarrow> st
      | Inl e \<Rightarrow> global_variables_initializer 1 0)"

definition zero_score_session :: "real session" where
  "zero_score_session = stepped_session\<lparr>discriminator_weights := 0\<rparr>"

text \<open>The session after a further step from there, and the session after a first step
  with score \<open>0\<close>.\<close>

definition after_zero_score :: "real session" where
  "after_zero_score =
     (case distribution_opt steady_env zero_score_session [blank_image] [[1]] of
        Inr st \<Rightarrow> st
      | Inl e \<Rightarrow> zero_score_session)"

definition quiet_session :: "real session" where
  "quiet_session =
     (case distribution_opt steady_env (global_variables_initializer 0 0) [blank_image] [[1]] of
        Inr st \<Rightarrow> st
      | Inl e \<Rightarrow> global_variables_initializer 0 0)"

text \<open>A world to start from, and where the generator step and the whole run leave it.\<close>

definition initial_world :: "real world" where
  "initial_world =
     \<lparr>session = global_variables_initializer 1 0, pool = idle_mill, X_true_train = blank_batch,
      generator_mean_history = [], generator_sigma_history = []\<rparr>"

definition generator_trained :: "real world" where
  "generator_trained =
     (case train_generator steady_env initial_world of Inr wd \<Rightarrow> wd | Inl e \<Rightarrow> initial_world)"

definition finished_world :: "real world" where
  "finished_world =
     (case orchestrator steady_env initial_world of Inr wd \<Rightarrow> wd | Inl e \<Rightarrow> initial_world)"

section \<open>Properties of the variational distribution\<close>

lemma softplus_arg_pos: "0 < 1 + exp (x::real)"
  by (simp add: add_pos_pos)

lemma softplus_pos: "0 < softplus x"
  unfolding softplus_def by (simp add: ln_gt_zero)

lemma softplus_strict_mono: "x < y \<Longrightarrow> softplus x < softplus y"
  unfolding softplus_def using softplus_arg_pos [of x] softplus_arg_pos [of y]
  by simp

lemma neg_log_prob_single:
  "neg_log_prob [\<mu>] [\<sigma>] (map (\<lambda>\<theta>. [\<theta>]) thetas) =
     map (\<lambda>\<theta>. ln \<sigma> + 0.5 * (\<theta> - \<mu>) ^ 2 / \<sigma> ^ 2) thetas"
  by (simp add: neg_log_prob_def quadratic_row_def reduce_sum_def)

text \<open>
  C1. For a batch of parameter values \<open>\<theta>\<close> (shape \<open>(N, 1)\<close>) and variables
  \<open>(\<mu>, \<sigma>')\<close> (shape \<open>(1,)\<close> each), \<open>neg_log_prob\<close> has one entry per sample, which is
  \<open>log \<sigma> + 0.5 (\<theta> - \<mu>)\<^sup>2 / \<sigma>\<^sup>2\<close> with \<open>\<sigma> = softplus \<sigma>'\<close>.
\<close>

theorem neg_log_prob_formula:
  "neg_log_prob [\<mu>] (detector_params_sigma [s]) (map (\<lambda>\<theta>. [\<theta>]) thetas) =
     map (\<lambda>\<theta>. ln (softplus s) + 0.5 * (\<theta> - \<mu>) ^ 2 / (softplus s) ^ 2) thetas"
  by (simp add: detector_params_sigma_def neg_log_prob_single)

text \<open>
  C3. For every real \<open>\<sigma>'\<close> the effective standard deviation \<open>softplus \<sigma>'\<close> is strictly
  positive, and \<open>softplus\<close> is increasing (strictly, hence also weakly).
\<close>

theorem softplus_positive_increasing:
  "0 < softplus x \<and> (x < y \<longrightarrow> softplus x < softplus y) \<and> (x \<le> y \<longrightarrow> softplus x \<le> softplus y)"
proof -
  have "x \<le> y \<longrightarrow> softplus x \<le> softplus y"
    using softplus_strict_mono [of x y] by (cases "x = y") auto
  then show ?thesis
    using softplus_pos softplus_strict_mono by blast
qed

theorem softplus_positive_increasing_witness:
  "(-1::real) < 2 \<and> (-1::real) \<le> 2 \<and> 0 < softplus (-1) \<and> softplus (-1) < softplus 2
     \<and> softplus (-1) \<le> softplus 2"
  using softplus_positive_increasing [of "-1" 2] by simp

lemma exp_double_le: "exp x \<le> a \<Longrightarrow> a * a \<le> b \<Longrightarrow> exp (2 * x) \<le> (b::real)"
proof -
  assume a: "exp x \<le> a" and b: "a * a \<le> b"
  have "exp (2 * x) = exp x * exp x"
    by (simp add: exp_add [symmetric])
  also have "\<dots> \<le> a * a"
    using a order_trans [OF exp_ge_zero a] by (intro mult_mono) simp_all
  finally show ?thesis
    using b by simp
qed

lemma exp_double_ge: "a \<le> exp x \<Longrightarrow> 0 \<le> a \<Longrightarrow> b \<le> a * a \<Longrightarrow> (b::real) \<le> exp (2 * x)"
proof -
  assume a: "a \<le> exp x" and a0: "0 \<le> a" and b: "b \<le> a * a"
  have "a * a \<le> exp x * exp x"
    using a a0 by (intro mult_mono) simp_all
  also have "\<dots> = exp (2 * x)"
    by (simp add: exp_add [symmetric])
  finally show ?thesis
    using b by simp
qed

lemma exp_eighth_le: "exp (1/8 :: real) \<le> 11336977 / 10000000"
proof -
  have "exp (1/128 :: real) \<le> 1 + 1/128 + (1/128)\<^sup>2"
    by (rule exp_bound) simp_all
  then have "exp (1/128 :: real) \<le> 629921 / 625000"
    by (simp add: power2_eq_square)
  then have "exp (1/64 :: real) \<le> 2539523 / 2500000"
    using exp_double_le [of "1/128" "629921 / 625000" "2539523 / 2500000"] by simp
  then have "exp (1/32 :: real) \<le> 2579671 / 2500000"
    using exp_double_le [of "1/64" "2539523 / 2500000" "2579671 / 2500000"] by simp
  then have "exp (1/16 :: real) \<le> 2661881 / 2500000"
    using exp_double_le [of "1/32" "2579671 / 2500000" "2661881 / 2500000"] by simp
  then show ?thesis
    using exp_double_le [of "1/16" "2661881 / 2500000" "11336977 / 10000000"] by simp
qed

lemma exp_two_le: "exp (2 :: real) \<le> 18616429 / 2500000"
proof -
  have "exp (1/4 :: real) \<le> 2570541 / 2000000"
    using exp_double_le [OF exp_eighth_le, of "2570541 / 2000000"] by simp
  then have "exp (1/2 :: real) \<le> 16519203 / 10000000"
    using exp_double_le [of "1/4" "2570541 / 2000000" "16519203 / 10000000"] by simp
  then have "exp (1 :: real) \<le> 27288407 / 10000000"
    using exp_double_le [of "1/2" "16519203 / 10000000" "27288407 / 10000000"] by simp
  then show ?thesis
    using exp_double_le [of 1 "27288407 / 10000000" "18616429 / 2500000"] by simp
qed

lemma exp_two_ge: "(718 / 100 :: real) \<le> exp 2"
proof -
  have "1 + (1/4 :: real) + (1/4)\<^sup>2 / 2 \<le> exp (1/4)"
    by (rule exp_lower_Taylor_quadratic) simp
  then have "(128125 / 100000 :: real) \<le> exp (1/4)"
    by (simp add: power2_eq_square)
  then have "(164 / 100 :: real) \<le> exp (1/2)"
    using exp_double_ge [of "128125 / 100000" "1/4" "164 / 100"] by simp
  then have "(268 / 100 :: real) \<le> exp 1"
    using exp_double_ge [of "164 / 100" "1/2" "268 / 100"] by simp
  then show ?thesis
    using exp_double_ge [of "268 / 100" 1 "718 / 100"] by simp
qed

lemma softplus_two_lower: "(2125 / 1000 :: real) < softplus 2"
proof -
  have "exp (2 :: real) * (exp (1/8) - 1) \<le> (18616429 / 2500000) * (11336977 / 10000000 - 1)"
    using exp_two_le exp_eighth_le by (intro mult_mono) simp_all
  also have "\<dots> < 1"
    by simp
  finally have "exp (2 :: real) * exp (1/8) < 1 + exp 2"
    by (simp add: algebra_simps)
  moreover have "exp (17/8 :: real) = exp 2 * exp (1/8)"
    by (simp add: exp_add [symmetric])
  ultimately have "exp (17/8 :: real) < 1 + exp 2"
    by simp
  then have "ln (exp (17/8 :: real)) < ln (1 + exp 2)"
    by (subst ln_less_cancel_iff) (simp_all add: add_pos_pos)
  then show ?thesis
    by (simp add: softplus_def)
qed

lemma softplus_two_upper: "softplus 2 < (2135 / 1000 :: real)"
proof -
  have "1 + (135/1000 :: real) + (135/1000)\<^sup>2 / 2 \<le> exp (135/1000)"
    by (rule exp_lower_Taylor_quadratic) simp
  then have q: "(1144 / 1000 :: real) \<le> exp (135/1000)"
    by (simp add: power2_eq_square)
  have "1 < (718 / 100 :: real) * (1144 / 1000 - 1)"
    by simp
  also have "\<dots> \<le> exp 2 * (exp (135/1000) - 1)"
    using exp_two_ge q by (intro mult_mono) simp_all
  finally have "1 + exp (2 :: real) < exp 2 * exp (135/1000)"
    by (simp add: algebra_simps)
  moreover have "exp (2135/1000 :: real) = exp 2 * exp (135/1000)"
    by (simp add: exp_add [symmetric])
  ultimately have "1 + exp (2 :: real) < exp (2135/1000)"
    by simp
  then have "ln (1 + exp (2 :: real)) < ln (exp (2135/1000))"
    by (subst ln_less_cancel_iff) (simp_all add: add_pos_pos)
  then show ?thesis
    by (simp add: softplus_def)
qed

text \<open>
  C10. Before any update step the distribution has \<open>\<mu> = 0.0\<close> and raw sigma
  \<open>\<sigma>' = 2.0\<close>, so the initial effective standard deviation is
  \<open>log (1 + e\<^sup>2)\<close>, which is \<open>2.13\<close> to two decimal places.
\<close>

theorem initial_distribution:
  "detector_params_mean (global_variables_initializer w seed) = 0 \<and>
   detector_params_sigma_raw (global_variables_initializer w seed) = 2 \<and>
   get_distribution_params (global_variables_initializer w seed) = ([0], [ln (1 + exp 2)]) \<and>
   \<bar>ln (1 + exp 2) - 2.13\<bar> < (0.005 :: real)"
proof -
  have "\<bar>ln (1 + exp 2) - 213 / 100\<bar> < (5 / 1000 :: real)"
    using softplus_two_lower softplus_two_upper unfolding softplus_def by linarith
  then have "\<bar>ln (1 + exp 2) - 2.13\<bar> < (0.005 :: real)"
    by simp
  then show ?thesis
    by (simp add: global_variables_initializer_def get_distribution_params_def
        detector_params_sigma_def softplus_def)
qed

text \<open>
  C7. For a fixed \<open>\<sigma> > 0\<close>, the entry of \<open>neg_log_prob\<close> for a sample \<open>\<theta>\<close> is
  symmetric around \<open>\<mu>\<close> and least at \<open>\<theta> = \<mu>\<close> (and only there).
\<close>

theorem neg_log_prob_minimum_symmetric:
  assumes "0 < \<sigma>"
  shows "neg_log_prob [\<mu>] [\<sigma>] [[\<mu> + d]] = neg_log_prob [\<mu>] [\<sigma>] [[\<mu> - d]] \<and>
         list_all2 (\<le>) (neg_log_prob [\<mu>] [\<sigma>] [[\<mu>]]) (neg_log_prob [\<mu>] [\<sigma>] [[\<theta>]]) \<and>
         (\<theta> \<noteq> \<mu> \<longrightarrow> list_all2 (<) (neg_log_prob [\<mu>] [\<sigma>] [[\<mu>]]) (neg_log_prob [\<mu>] [\<sigma>] [[\<theta>]]))"
proof -
  have s: "neg_log_prob [\<mu>] [\<sigma>] [[x]] = [ln \<sigma> + 0.5 * (x - \<mu>) ^ 2 / \<sigma> ^ 2]" for x
    using neg_log_prob_single [of \<mu> \<sigma> "[x]"] by simp
  have "0 < (\<theta> - \<mu>)\<^sup>2 / \<sigma>\<^sup>2" if "\<theta> \<noteq> \<mu>"
    using that assms by simp
  then show ?thesis
    by (auto simp: s)
qed

theorem neg_log_prob_minimum_symmetric_witness:
  "(0::real) < 2 \<and> (3::real) \<noteq> 1 \<and>
   neg_log_prob [1] [2] [[1 + 5]] = neg_log_prob [1] [2] [[1 - 5]] \<and>
   list_all2 (\<le>) (neg_log_prob [1] [2] [[1]]) (neg_log_prob [1] [2] [[3]]) \<and>
   list_all2 (<) (neg_log_prob [1] [2] [[1]]) (neg_log_prob [1] [2] [[3]])"
  using neg_log_prob_minimum_symmetric [of 2 1 5 3] by simp

section \<open>The gradient step\<close>

lemma DERIV_softplus: "DERIV softplus s :> sigmoid s"
  unfolding softplus_def sigmoid_def
  by (auto intro!: derivative_eq_intros simp: add_pos_pos)

lemma DERIV_entry_mean:
  "DERIV (\<lambda>x. (ln (softplus s) + 0.5 * (\<theta> - x) ^ 2 / (softplus s) ^ 2) * p) \<mu>
     :> neg_log_prob_d_mean \<mu> s \<theta> * p"
  unfolding neg_log_prob_d_mean_def
  using softplus_pos [of s]
  by (auto intro!: derivative_eq_intros simp: field_simps)

lemma DERIV_ln_softplus: "DERIV (\<lambda>x. ln (softplus x)) s :> sigmoid s / softplus s"
  using DERIV_chain2 [OF DERIV_ln_divide [OF softplus_pos [of s]] DERIV_softplus [of s]]
  by simp

lemma DERIV_inverse_square_softplus:
  "DERIV (\<lambda>x. c / (softplus x) ^ 2) s :> - (2 * c * sigmoid s / (softplus s) ^ 3)"
proof -
  have nz: "softplus s \<noteq> 0"
    using softplus_pos [of s] by simp
  have sq: "DERIV (\<lambda>x. (softplus x) ^ 2) s :> 2 * softplus s * sigmoid s"
    using DERIV_power [OF DERIV_softplus [of s], of 2] by (simp add: ac_simps)
  have d: "DERIV (\<lambda>x. c * inverse ((softplus x) ^ 2)) s
          :> c * (- (inverse ((softplus s) ^ 2) * (2 * softplus s * sigmoid s)
                      * inverse ((softplus s) ^ 2)))"
    using nz by (intro DERIV_cmult DERIV_inverse' sq) simp
  have e: "c * (- (inverse ((softplus s) ^ 2) * (2 * softplus s * sigmoid s)
                      * inverse ((softplus s) ^ 2))) = - (2 * c * sigmoid s / (softplus s) ^ 3)"
    using nz by (simp add: field_simps power2_eq_square power3_eq_cube)
  have "DERIV (\<lambda>x. c * inverse ((softplus x) ^ 2)) s :> - (2 * c * sigmoid s / (softplus s) ^ 3)"
    using d unfolding e .
  then show ?thesis
    unfolding divide_inverse .
qed

lemma DERIV_entry_sigma_raw:
  "DERIV (\<lambda>x. (ln (softplus x) + 0.5 * (\<theta> - \<mu>) ^ 2 / (softplus x) ^ 2) * p) s
     :> neg_log_prob_d_sigma_raw \<mu> s \<theta> * p"
proof -
  have "DERIV (\<lambda>x. ln (softplus x) + (0.5 * (\<theta> - \<mu>) ^ 2) / (softplus x) ^ 2) s
          :> sigmoid s / softplus s + - (2 * (0.5 * (\<theta> - \<mu>) ^ 2) * sigmoid s / (softplus s) ^ 3)"
    by (intro DERIV_add DERIV_ln_softplus DERIV_inverse_square_softplus)
  moreover have "sigmoid s / softplus s + - (2 * (0.5 * (\<theta> - \<mu>) ^ 2) * sigmoid s / (softplus s) ^ 3)
      = neg_log_prob_d_sigma_raw \<mu> s \<theta>"
    by (simp add: neg_log_prob_d_sigma_raw_def algebra_simps diff_divide_distrib)
  ultimately have "DERIV (\<lambda>x. ln (softplus x) + (0.5 * (\<theta> - \<mu>) ^ 2) / (softplus x) ^ 2) s
          :> neg_log_prob_d_sigma_raw \<mu> s \<theta>"
    by simp
  then show ?thesis
    by (rule DERIV_cmult_right)
qed

lemma DERIV_sum_list:
  "(\<And>a. a \<in> set xs \<Longrightarrow> DERIV (\<lambda>t. f t a) x :> f' a)
     \<Longrightarrow> DERIV (\<lambda>t. sum_list (map (f t) xs)) x :> sum_list (map f' xs)"
proof (induction xs)
  case Nil
  show ?case by simp
next
  case (Cons a xs)
  have "DERIV (\<lambda>t. f t a + sum_list (map (f t) xs)) x :> f' a + sum_list (map f' xs)"
    by (intro DERIV_add Cons.prems Cons.IH) simp_all
  then show ?case by simp
qed

lemma rows_of_width_one:
  "list_all (\<lambda>row. length row = 1) rows \<Longrightarrow> rows = map (\<lambda>\<theta>. [\<theta>]) (concat rows)"
proof (induction rows)
  case Nil
  show ?case by simp
next
  case (Cons row rows)
  from Cons.prems obtain x where "row = [x]"
    by (cases row) auto
  with Cons show ?case by simp
qed

lemma concat_rows_length:
  "list_all (\<lambda>row. length row = 1) rows \<Longrightarrow> length (concat rows) = length rows"
  by (induction rows) simp_all

lemma loss_value:
  assumes "length P = length thetas"
  shows "detector_params_loss [\<mu>] [s] (map (\<lambda>\<theta>. [\<theta>]) thetas) P =
           Inr (sum_list (map (entry_loss \<mu> s) (zip thetas P)) / real (length thetas))"
proof -
  have "map (\<lambda>(x, y). x * y)
          (zip (map (\<lambda>\<theta>. ln (softplus s) + 0.5 * (\<theta> - \<mu>) ^ 2 / (softplus s) ^ 2) thetas) P) =
        map (entry_loss \<mu> s) (zip thetas P)"
    by (simp add: zip_map1 entry_loss_def case_prod_unfold)
  then show ?thesis
    using assms
    by (simp add: detector_params_loss_def detector_params_sigma_def neg_log_prob_single
        broadcast_mul_def reduce_mean_def)
qed

lemma gradient_sum:
  "map (\<lambda>(x, y). x * y) (zip (map d thetas) P) = map (\<lambda>(\<theta>, p). d \<theta> * p) (zip thetas P)"
  by (simp add: zip_map1 case_prod_unfold)

lemma DERIV_loss_mean:
  assumes "length P = length thetas"
  shows "DERIV (\<lambda>x. sum_list (map (entry_loss x s) (zip thetas P)) / real (length thetas)) \<mu>
     :> reduce_mean (map (\<lambda>(x, y). x * y) (zip (map (neg_log_prob_d_mean \<mu> s) thetas) P))"
proof -
  have "DERIV (\<lambda>x. sum_list (map (entry_loss x s) (zip thetas P))) \<mu>
          :> sum_list (map (\<lambda>(\<theta>, p). neg_log_prob_d_mean \<mu> s \<theta> * p) (zip thetas P))"
  proof (rule DERIV_sum_list)
    fix a :: "real \<times> real"
    obtain \<theta> p where a: "a = (\<theta>, p)"
      by (cases a)
    show "DERIV (\<lambda>t. entry_loss t s a) \<mu> :> (case a of (\<theta>, p) \<Rightarrow> neg_log_prob_d_mean \<mu> s \<theta> * p)"
      unfolding a entry_loss_def prod.case by (rule DERIV_entry_mean)
  qed
  then have "DERIV (\<lambda>x. sum_list (map (entry_loss x s) (zip thetas P)) / real (length thetas)) \<mu>
          :> sum_list (map (\<lambda>(\<theta>, p). neg_log_prob_d_mean \<mu> s \<theta> * p) (zip thetas P))
               / real (length thetas)"
    by (rule DERIV_cdivide)
  then show ?thesis
    using assms by (simp add: reduce_mean_def gradient_sum)
qed

lemma DERIV_loss_sigma_raw:
  assumes "length P = length thetas"
  shows "DERIV (\<lambda>x. sum_list (map (entry_loss \<mu> x) (zip thetas P)) / real (length thetas)) s
     :> reduce_mean (map (\<lambda>(x, y). x * y) (zip (map (neg_log_prob_d_sigma_raw \<mu> s) thetas) P))"
proof -
  have "DERIV (\<lambda>x. sum_list (map (entry_loss \<mu> x) (zip thetas P))) s
          :> sum_list (map (\<lambda>(\<theta>, p). neg_log_prob_d_sigma_raw \<mu> s \<theta> * p) (zip thetas P))"
  proof (rule DERIV_sum_list)
    fix a :: "real \<times> real"
    obtain \<theta> p where a: "a = (\<theta>, p)"
      by (cases a)
    show "DERIV (\<lambda>t. entry_loss \<mu> t a) s :> (case a of (\<theta>, p) \<Rightarrow> neg_log_prob_d_sigma_raw \<mu> s \<theta> * p)"
      unfolding a entry_loss_def prod.case by (rule DERIV_entry_sigma_raw)
  qed
  then have "DERIV (\<lambda>x. sum_list (map (entry_loss \<mu> x) (zip thetas P)) / real (length thetas)) s
          :> sum_list (map (\<lambda>(\<theta>, p). neg_log_prob_d_sigma_raw \<mu> s \<theta> * p) (zip thetas P))
               / real (length thetas)"
    by (rule DERIV_cdivide)
  then show ?thesis
    using assms by (simp add: reduce_mean_def gradient_sum)
qed

lemma apply_adam_components:
  "apply_adam b1 b2 (x, m, v) g =
     (x - learning_rate * sqrt (1 - b2) / (1 - b1) * (beta1 * m + (1 - beta1) * g)
            / (sqrt (beta2 * v + (1 - beta2) * g * g) + epsilon),
      beta1 * m + (1 - beta1) * g,
      beta2 * v + (1 - beta2) * g * g)"
  by (simp add: apply_adam_def Let_def)

lemma length_proba [simp]: "length (proba env st X) = length X"
  by (simp add: proba_def)

text \<open>What a successful run of the step has done, for feeds of equal length.\<close>

lemma distribution_opt_step:
  assumes run: "distribution_opt env st X rows = Inr st'"
    and len: "length X = length rows"
  defines "thetas \<equiv> concat rows"
  defines "g1 \<equiv> reduce_mean (map (\<lambda>(x, y). x * y)
      (zip (map (neg_log_prob_d_mean (detector_params_mean st) (detector_params_sigma_raw st)) thetas)
        (proba env st X)))"
  defines "g2 \<equiv> reduce_mean (map (\<lambda>(x, y). x * y)
      (zip (map (neg_log_prob_d_sigma_raw (detector_params_mean st) (detector_params_sigma_raw st)) thetas)
        (proba env st X)))"
  shows "list_all (\<lambda>row. length row = 1) rows"
    and "rows \<noteq> []"
    and "st' = st\<lparr>detector_params_mean :=
                    fst (apply_adam (beta1_power st) (beta2_power st)
                      (detector_params_mean st, adam_m_mean st, adam_v_mean st) g1),
                 detector_params_sigma_raw :=
                    fst (apply_adam (beta1_power st) (beta2_power st)
                      (detector_params_sigma_raw st, adam_m_sigma_raw st, adam_v_sigma_raw st) g2),
                 adam_m_mean := beta1 * adam_m_mean st + (1 - beta1) * g1,
                 adam_v_mean := beta2 * adam_v_mean st + (1 - beta2) * g1 * g1,
                 adam_m_sigma_raw := beta1 * adam_m_sigma_raw st + (1 - beta1) * g2,
                 adam_v_sigma_raw := beta2 * adam_v_sigma_raw st + (1 - beta2) * g2 * g2,
                 beta1_power := beta1_power st * beta1,
                 beta2_power := beta2_power st * beta2\<rparr>"
proof -
  from run show shape: "list_all (\<lambda>row. length row = 1) rows"
    by (auto simp: distribution_opt_def split: if_splits)
  from run have feeds: "list_all (\<lambda>x. length x = image_size) X"
    by (auto simp: distribution_opt_def split: if_splits)
  have n: "length thetas = length X"
    using concat_rows_length [OF shape] len by (simp add: thetas_def)
  from run shape feeds n show "rows \<noteq> []"
    by (auto simp: distribution_opt_def broadcast_mul_def Let_def thetas_def split: if_splits)
  from run shape feeds n show "st' = st\<lparr>detector_params_mean :=
                    fst (apply_adam (beta1_power st) (beta2_power st)
                      (detector_params_mean st, adam_m_mean st, adam_v_mean st) g1),
                 detector_params_sigma_raw :=
                    fst (apply_adam (beta1_power st) (beta2_power st)
                      (detector_params_sigma_raw st, adam_m_sigma_raw st, adam_v_sigma_raw st) g2),
                 adam_m_mean := beta1 * adam_m_mean st + (1 - beta1) * g1,
                 adam_v_mean := beta2 * adam_v_mean st + (1 - beta2) * g1 * g1,
                 adam_m_sigma_raw := beta1 * adam_m_sigma_raw st + (1 - beta1) * g2,
                 adam_v_sigma_raw := beta2 * adam_v_sigma_raw st + (1 - beta2) * g2 * g2,
                 beta1_power := beta1_power st * beta1,
                 beta2_power := beta2_power st * beta2\<rparr>"
    unfolding g1_def g2_def thetas_def [symmetric]
    by (simp add: distribution_opt_def broadcast_mul_def Let_def thetas_def [symmetric]
        apply_adam_components split: if_splits)
qed

text \<open>The step leaves the rest of the session alone, whatever the feeds.\<close>

lemma distribution_opt_frame:
  assumes "distribution_opt env st X rows = Inr st'"
  shows "discriminator_weights st' = discriminator_weights st"
    and "random_state st' = random_state st"
    and "beta1_power st' = beta1_power st * beta1"
    and "beta2_power st' = beta2_power st * beta2"
  using assms
  by (auto simp: distribution_opt_def Let_def split: if_splits sum.splits prod.splits)

section \<open>The pool and \<open>get_data\<close>\<close>

lemma request_all_pending [simp]: "pending (request_all m cs) = pending m @ cs"
  by (induction cs arbitrary: m) (simp_all add: request_def)

lemma request_all_clock [simp]: "clock (request_all m cs) = clock m"
  by (induction cs arbitrary: m) (simp_all add: request_def)

lemma mset_remove_nth:
  "j < length xs \<Longrightarrow> mset (take j xs @ drop (Suc j) xs) + {#xs ! j#} = mset xs"
proof -
  assume "j < length xs"
  then have "xs = take j xs @ xs ! j # drop (Suc j) xs"
    by (simp add: id_take_nth_drop)
  then have "mset xs = mset (take j xs @ xs ! j # drop (Suc j) xs)"
    by simp
  then show ?thesis
    by simp
qed

text \<open>One call of \<open>retrieve\<close> with requests outstanding.\<close>

lemma retrieve_cases:
  assumes "pending m \<noteq> []" and "retrieve w m = (r, m')"
  shows "clock m' = Suc (clock m) \<and>
         (case r of
            Inl e \<Rightarrow> e = SimulatorFailure \<and> w (clock m) = Crash \<and> pending m' = pending m
          | Inr unit \<Rightarrow> (\<exists>i. w (clock m) = Deliver i (snd unit))
              \<and> mset (pending m') + {#fst unit#} = mset (pending m)
              \<and> Suc (length (pending m')) = length (pending m))"
proof (cases "w (clock m)")
  case Crash
  with assms show ?thesis
    by (auto simp: retrieve_def)
next
  case (Deliver i batch)
  define j where "j = i mod length (pending m)"
  have j: "j < length (pending m)"
    using assms(1) by (simp add: j_def)
  have r: "r = Inr (pending m ! j, batch)"
    and m': "m' = m\<lparr>pending := take j (pending m) @ drop (Suc j) (pending m), clock := Suc (clock m)\<rparr>"
    using assms Deliver by (auto simp: retrieve_def Let_def j_def)
  have "Suc (length (take j (pending m) @ drop (Suc j) (pending m))) = length (pending m)"
    using j by simp
  then show ?thesis
    using mset_remove_nth [OF j] Deliver by (simp add: r m')
qed

text \<open>The comprehension of \<open>k\<close> calls, when it completes and when a call raises.\<close>

lemma retrieve_n_ok:
  "retrieve_n w k m = (Inr data, m') \<Longrightarrow> k \<le> length (pending m) \<Longrightarrow>
     length data = k \<and> clock m' = clock m + k
     \<and> mset (map fst data) + mset (pending m') = mset (pending m)
     \<and> length (pending m') + k = length (pending m)
     \<and> (\<forall>t<k. \<exists>i. w (clock m + t) = Deliver i (snd (data ! t)))"
proof (induction k arbitrary: m data)
  case 0
  then show ?case by simp
next
  case (Suc k)
  from Suc.prems(2) have ne: "pending m \<noteq> []"
    by auto
  obtain r1 m1 where r1: "retrieve w m = (r1, m1)"
    by (cases "retrieve w m")
  with Suc.prems(1) obtain unit where unit: "r1 = Inr unit"
    by (cases r1) auto
  obtain r2 m2 where r2: "retrieve_n w k m1 = (r2, m2)"
    by (cases "retrieve_n w k m1")
  with Suc.prems(1) r1 unit obtain units where units: "r2 = Inr units"
    and data: "data = unit # units" and m2: "m2 = m'"
    by (cases r2) auto
  from retrieve_cases [OF ne r1] unit
  have c1: "clock m1 = Suc (clock m)"
    and ev: "\<exists>i. w (clock m) = Deliver i (snd unit)"
    and ms: "mset (pending m1) + {#fst unit#} = mset (pending m)"
    and ln: "Suc (length (pending m1)) = length (pending m)"
    by simp_all
  from ln Suc.prems(2) have "k \<le> length (pending m1)"
    by simp
  from Suc.IH [OF r2 [unfolded units m2] this]
  have ih: "length units = k" "clock m' = clock m1 + k"
    "mset (map fst units) + mset (pending m') = mset (pending m1)"
    "length (pending m') + k = length (pending m1)"
    "\<forall>t<k. \<exists>i. w (clock m1 + t) = Deliver i (snd (units ! t))"
    by simp_all
  have "\<exists>i. w (clock m + t) = Deliver i (snd (data ! t))" if "t < Suc k" for t
  proof (cases t)
    case 0
    with ev show ?thesis by (simp add: data)
  next
    case (Suc t')
    with that ih(5) c1 show ?thesis by (simp add: data)
  qed
  moreover have "mset (map fst data) + mset (pending m') = mset (pending m)"
    using ih(3) ms by (simp add: data ac_simps)
  ultimately show ?case
    using ih(1,2,4) c1 ln by (simp add: data)
qed

lemma retrieve_n_fail:
  "retrieve_n w k m = (Inl e, m') \<Longrightarrow> k \<le> length (pending m) \<Longrightarrow>
     \<exists>j<k. e = SimulatorFailure \<and> w (clock m + j) = Crash \<and> (\<forall>t<j. w (clock m + t) \<noteq> Crash)
       \<and> clock m' = clock m + j + 1 \<and> length (pending m') + j = length (pending m)"
proof (induction k arbitrary: m)
  case 0
  then show ?case by simp
next
  case (Suc k)
  from Suc.prems(2) have ne: "pending m \<noteq> []"
    by auto
  obtain r1 m1 where r1: "retrieve w m = (r1, m1)"
    by (cases "retrieve w m")
  show ?case
  proof (cases r1)
    case (Inl e1)
    with Suc.prems(1) r1 have "e = e1" "m' = m1"
      by auto
    with retrieve_cases [OF ne r1] Inl show ?thesis
      by (intro exI [of _ 0]) simp
  next
    case (Inr unit)
    obtain r2 m2 where r2: "retrieve_n w k m1 = (r2, m2)"
      by (cases "retrieve_n w k m1")
    with Suc.prems(1) r1 Inr have r2e: "r2 = Inl e" and m2: "m2 = m'"
      by (cases r2; auto)+
    from retrieve_cases [OF ne r1] Inr
    have c1: "clock m1 = Suc (clock m)"
      and ev: "\<exists>i. w (clock m) = Deliver i (snd unit)"
      and ln: "Suc (length (pending m1)) = length (pending m)"
      by simp_all
    from ln Suc.prems(2) have "k \<le> length (pending m1)"
      by simp
    from Suc.IH [OF r2 [unfolded r2e m2] this] obtain j where j: "j < k" "e = SimulatorFailure"
      "w (clock m1 + j) = Crash" "\<forall>t<j. w (clock m1 + t) \<noteq> Crash"
      "clock m' = clock m1 + j + 1" "length (pending m') + j = length (pending m1)"
      by blast
    have "w (clock m + t) \<noteq> Crash" if "t < Suc j" for t
    proof (cases t)
      case 0
      with ev show ?thesis by auto
    next
      case (Suc t')
      with that j(4) c1 show ?thesis by simp
    qed
    with j c1 ln show ?thesis
      by (intro exI [of _ "Suc j"]) simp
  qed
qed

declare drain.simps [simp del]

lemma drain_result:
  "drain w m = (r, m') \<Longrightarrow>
     (case r of
        None \<Rightarrow> pending m' = [] \<and> clock m' = clock m + length (pending m)
          \<and> (\<forall>t<length (pending m). w (clock m + t) \<noteq> Crash)
      | Some e \<Rightarrow> e = SimulatorFailure
          \<and> (\<exists>j<length (pending m). w (clock m + j) = Crash \<and> (\<forall>t<j. w (clock m + t) \<noteq> Crash)
                \<and> clock m' = clock m + j + 1 \<and> length (pending m') + j = length (pending m)))"
proof (induction w m arbitrary: r m' rule: drain.induct)
  case (1 w m)
  show ?case
  proof (cases "pending m = []")
    case True
    with "1.prems" show ?thesis
      by (subst (asm) drain.simps) (auto simp: n_requests_def)
  next
    case ne: False
    obtain r1 m1 where r1: "retrieve w m = (r1, m1)"
      by (cases "retrieve w m")
    show ?thesis
    proof (cases r1)
      case (Inl e1)
      with "1.prems" r1 ne have "r = Some e1" "m' = m1"
        by (subst (asm) drain.simps; simp add: n_requests_def)+
      with retrieve_cases [OF ne r1] Inl ne show ?thesis
        by (auto intro!: exI [of _ 0])
    next
      case (Inr unit)
      with "1.prems" r1 ne have rec: "drain w m1 = (r, m')"
        by (subst (asm) drain.simps) (simp add: n_requests_def)
      from retrieve_cases [OF ne r1] Inr
      have c1: "clock m1 = Suc (clock m)"
        and ev: "\<exists>i. w (clock m) = Deliver i (snd unit)"
        and ln: "Suc (length (pending m1)) = length (pending m)"
        by simp_all
      have pos: "0 < n_requests m"
        using ne by (simp add: n_requests_def)
      note ih = "1.IH" [OF pos r1 [symmetric] Inr rec]
      have first: "w (clock m + t) \<noteq> Crash" if "t = 0" for t
        using ev that by auto
      show ?thesis
      proof (cases r)
        case None
        with ih have a: "pending m' = []" "clock m' = clock m1 + length (pending m1)"
          "\<forall>t<length (pending m1). w (clock m1 + t) \<noteq> Crash"
          by simp_all
        have "w (clock m + t) \<noteq> Crash" if "t < length (pending m)" for t
        proof (cases t)
          case 0
          then show ?thesis by (rule first)
        next
          case (Suc t')
          with that a(3) c1 ln show ?thesis by simp
        qed
        with a(1,2) c1 ln None show ?thesis
          by simp
      next
        case (Some e)
        with ih obtain j where j: "e = SimulatorFailure" "j < length (pending m1)"
          "w (clock m1 + j) = Crash" "\<forall>t<j. w (clock m1 + t) \<noteq> Crash"
          "clock m' = clock m1 + j + 1" "length (pending m') + j = length (pending m1)"
          by auto
        have "w (clock m + t) \<noteq> Crash" if "t < Suc j" for t
        proof (cases t)
          case 0
          then show ?thesis by (rule first)
        next
          case (Suc t')
          with that j(4) c1 show ?thesis by simp
        qed
        with j c1 ln Some show ?thesis
          by (auto intro!: exI [of _ "Suc j"])
      qed
    qed
  qed
qed

declare chunks.simps [simp del]

lemma chunks_concat:
  "0 < n \<Longrightarrow> \<forall>x\<in>set xs. length x = n \<Longrightarrow> chunks n (concat xs) = xs"
proof (induction xs)
  case Nil
  then show ?case by (simp add: chunks.simps)
next
  case (Cons x xs)
  then have "x \<noteq> []" "length x = n"
    by auto
  then have "chunks n (concat (x # xs)) = x # chunks n (concat xs)"
    using Cons.prems(1) by (subst chunks.simps) simp
  with Cons show ?case by simp
qed

lemma length_concat_uniform:
  "\<forall>x\<in>set xs. length x = n \<Longrightarrow> length (concat xs) = n * length xs"
  by (induction xs) simp_all

lemma get_data_unfold:
  "get_data w m cs =
     (case retrieve_n w (length cs) (request_all m cs) of
        (retrieved, m2) \<Rightarrow>
          (case drain w m2 of
             (Some e, m3) \<Rightarrow> (Inl e, m3)
           | (None, m3) \<Rightarrow> (case retrieved of Inl e \<Rightarrow> Inl e | Inr data \<Rightarrow> assemble data, m3)))"
  by (simp add: get_data_def Let_def split: prod.splits option.splits)

lemma drain_idle: "pending m = [] \<Longrightarrow> drain w m = (None, m)"
  by (subst drain.simps) (simp add: n_requests_def)

lemma assemble_Inr:
  assumes "assemble data = Inr (params, samples)"
  shows "data \<noteq> []"
    and "params = concat (map (\<lambda>(p, s). params_block p s) data)"
    and "samples = chunks image_size (concat (concat (map snd data)))"
  using assms
  by (auto simp: assemble_def vstack_def reshape_images_def Let_def split: sum.splits if_splits)

text \<open>A call that returns a pair, on a pool that was idle.\<close>

lemma get_data_returns:
  assumes get: "get_data w m cs = (Inr (params, samples), m')"
    and idle: "pending m = []"
  shows "\<exists>data. assemble data = Inr (params, samples) \<and> length data = length cs
           \<and> mset (map fst data) = mset cs
           \<and> (\<forall>t<length cs. \<exists>i. w (clock m + t) = Deliver i (snd (data ! t)))
           \<and> pending m' = [] \<and> clock m' = clock m + length cs"
proof -
  obtain retrieved m2 where rn: "retrieve_n w (length cs) (request_all m cs) = (retrieved, m2)"
    by (cases "retrieve_n w (length cs) (request_all m cs)")
  obtain raised m3 where dr: "drain w m2 = (raised, m3)"
    by (cases "drain w m2")
  from get rn dr have none: "raised = None" and m3: "m3 = m'"
    by (auto simp: get_data_unfold split: option.splits)
  with get rn dr obtain data where data: "retrieved = Inr data"
    and asm: "assemble data = Inr (params, samples)"
    by (cases retrieved) (auto simp: get_data_unfold)
  have le: "length cs \<le> length (pending (request_all m cs))"
    by simp
  from retrieve_n_ok [OF rn [unfolded data] le] idle
  have ok: "length data = length cs" "clock m2 = clock m + length cs"
    "mset (map fst data) + mset (pending m2) = mset cs"
    "length (pending m2) + length cs = length cs"
    "\<forall>t<length cs. \<exists>i. w (clock m + t) = Deliver i (snd (data ! t))"
    by auto
  from ok(4) have e: "pending m2 = []"
    by simp
  with dr drain_idle [of m2 w] m3 have "m' = m2"
    by simp
  with ok e asm show ?thesis
    by (intro exI [of _ data]) simp
qed

text \<open>How the rows of the two arrays line up when every unit has a batch of \<open>n > 0\<close>
  images of the right size.\<close>

lemma zip_blocks:
  "zip (concat (map (\<lambda>(p, s). replicate (length s) p) data)) (concat (map snd data)) =
     concat (map (\<lambda>(p, s). map (Pair p) s) data)"
proof (induction data)
  case Nil
  show ?case by simp
next
  case (Cons u data)
  obtain p s where u: "u = (p, s)"
    by (cases u)
  have "zip (replicate (length s) p) s = map (Pair p) s"
    by (simp add: zip_replicate1)
  with Cons show ?case
    by (simp add: u)
qed

lemma assemble_rows:
  assumes asm: "assemble data = Inr (params, samples)"
    and units: "\<forall>u\<in>set data. length (snd u) = n \<and> (\<forall>img\<in>set (snd u). length img = image_size)"
    and n: "0 < n"
  shows "samples = concat (map snd data)"
    and "params = concat (map (\<lambda>(p, s). replicate (length s) p) data)"
    and "length samples = n * length data"
    and "length params = n * length data"
proof -
  have "\<forall>img\<in>set (concat (map snd data)). length img = image_size"
    using units by auto
  then have "chunks image_size (concat (concat (map snd data))) = concat (map snd data)"
    by (intro chunks_concat) (simp_all add: image_size_def)
  with assemble_Inr(3) [OF asm] show s: "samples = concat (map snd data)"
    by simp
  have "map (\<lambda>(p, s). params_block p s) data = map (\<lambda>(p, s). replicate (length s) p) data"
    using units n by (auto simp: params_block_def)
  with assemble_Inr(2) [OF asm] show p: "params = concat (map (\<lambda>(p, s). replicate (length s) p) data)"
    by simp
  have "\<forall>b\<in>set (map snd data). length b = n"
    using units by auto
  from length_concat_uniform [OF this] show "length samples = n * length data"
    by (simp add: s)
  have "\<forall>b\<in>set (map (\<lambda>(p, s). replicate (length s) p) data). length b = n"
    using units by auto
  from length_concat_uniform [OF this] show "length params = n * length data"
    by (simp add: p)
qed

lemma retrieve_n_no_crash:
  assumes "\<forall>t<k. w (clock m + t) \<noteq> Crash" and "k \<le> length (pending m)"
  shows "\<exists>data m'. retrieve_n w k m = (Inr data, m')"
proof -
  obtain r m' where r: "retrieve_n w k m = (r, m')"
    by (cases "retrieve_n w k m")
  show ?thesis
  proof (cases r)
    case (Inl e)
    from retrieve_n_fail [OF r [unfolded Inl] assms(2)] assms(1) show ?thesis
      by auto
  next
    case (Inr data)
    with r show ?thesis by simp
  qed
qed

lemma retrieve_n_first_crash:
  assumes j: "j < k" "w (clock m + j) = Crash" "\<forall>t<j. w (clock m + t) \<noteq> Crash"
    and k: "k \<le> length (pending m)"
  shows "\<exists>m'. retrieve_n w k m = (Inl SimulatorFailure, m') \<and> clock m' = clock m + j + 1
           \<and> length (pending m') + j = length (pending m)"
proof -
  obtain r m' where r: "retrieve_n w k m = (r, m')"
    by (cases "retrieve_n w k m")
  show ?thesis
  proof (cases r)
    case (Inr data)
    from retrieve_n_ok [OF r [unfolded Inr] k] j(1,2) show ?thesis
      by auto
  next
    case (Inl e)
    from retrieve_n_fail [OF r [unfolded Inl] k] obtain j' where j': "j' < k" "e = SimulatorFailure"
      "w (clock m + j') = Crash" "\<forall>t<j'. w (clock m + t) \<noteq> Crash"
      "clock m' = clock m + j' + 1" "length (pending m') + j' = length (pending m)"
      by blast
    have "j' = j"
      using j j' by (meson linorder_neqE_nat)
    with j' r Inl show ?thesis
      by simp
  qed
qed

lemma drain_no_crash:
  assumes "\<forall>t<length (pending m). w (clock m + t) \<noteq> Crash"
  shows "\<exists>m'. drain w m = (None, m') \<and> pending m' = [] \<and> clock m' = clock m + length (pending m)"
proof -
  obtain r m' where r: "drain w m = (r, m')"
    by (cases "drain w m")
  from drain_result [OF r] assms show ?thesis
    by (cases r) (auto simp: r)
qed

lemma uniform_rows:
  "\<forall>r\<in>set rows. length r = n \<Longrightarrow> list_all (\<lambda>r. length r = length (hd rows)) rows"
  by (cases rows) (auto simp: list_all_iff)

lemma vstack_uniform:
  "blocks \<noteq> [] \<Longrightarrow> \<forall>r\<in>set (concat blocks). length r = n \<Longrightarrow> vstack blocks = Inr (concat blocks)"
  using uniform_rows [of "concat blocks" n] by (simp add: vstack_def Let_def)

text \<open>Assembly succeeds on units of \<open>n > 0\<close> images of the right size each, for
  configurations of one width.\<close>

lemma assemble_total:
  assumes ne: "data \<noteq> []"
    and units: "\<forall>u\<in>set data. length (snd u) = n \<and> (\<forall>img\<in>set (snd u). length img = image_size)"
    and n: "0 < n"
    and width: "\<forall>u\<in>set data. length (fst u) = d"
  shows "assemble data =
           Inr (concat (map (\<lambda>(p, s). replicate (length s) p) data), concat (map snd data))"
proof -
  have imgs: "\<forall>img\<in>set (concat (map snd data)). length img = image_size"
    using units by auto
  have v1: "vstack (map snd data) = Inr (concat (map snd data))"
    using ne by (intro vstack_uniform [where n = image_size] imgs) simp
  have blocks: "map (\<lambda>(p, s). params_block p s) data = map (\<lambda>(p, s). replicate (length s) p) data"
    using units n by (auto simp: params_block_def)
  have rows: "\<forall>row\<in>set (concat (map (\<lambda>(p, s). replicate (length s) p) data)). length row = d"
    using width by fastforce
  have v2: "vstack (map (\<lambda>(p, s). params_block p s) data) =
      Inr (concat (map (\<lambda>(p, s). replicate (length s) p) data))"
    using ne unfolding blocks by (intro vstack_uniform [where n = d] rows) simp
  have "length (concat (concat (map snd data))) = image_size * length (concat (map snd data))"
    by (rule length_concat_uniform [OF imgs])
  moreover have "chunks image_size (concat (concat (map snd data))) = concat (map snd data)"
    using imgs by (intro chunks_concat) (simp_all add: image_size_def)
  ultimately have v3: "reshape_images (concat (map snd data)) = Inr (concat (map snd data))"
    by (simp add: reshape_images_def Let_def)
  show ?thesis
    by (simp add: assemble_def v1 v2 v3)
qed

text \<open>With workers that complete every request by a batch of \<open>n > 0\<close> images of the
  right size, a call on an idle pool returns its two arrays and leaves the pool idle.\<close>

lemma get_data_total:
  assumes idle: "pending m = []"
    and ne: "cs \<noteq> []"
    and width: "\<forall>c\<in>set cs. length c = d"
    and n: "0 < n"
    and good: "\<forall>t. \<exists>i b. w t = Deliver i b \<and> length b = n \<and> (\<forall>img\<in>set b. length img = image_size)"
  shows "\<exists>params samples m'. get_data w m cs = (Inr (params, samples), m')
           \<and> pending m' = [] \<and> length params = n * length cs \<and> length samples = n * length cs
           \<and> (\<forall>row\<in>set params. length row = d)
           \<and> (\<forall>img\<in>set samples. length img = image_size)"
proof -
  let ?m1 = "request_all m cs"
  have nc: "\<forall>t<length cs. w (clock ?m1 + t) \<noteq> Crash"
  proof (intro allI impI)
    fix t
    from good obtain i b where "w (clock ?m1 + t) = Deliver i b"
      by blast
    then show "w (clock ?m1 + t) \<noteq> Crash"
      by simp
  qed
  have le: "length cs \<le> length (pending ?m1)"
    by simp
  from retrieve_n_no_crash [OF nc le] obtain data m2
    where rn: "retrieve_n w (length cs) ?m1 = (Inr data, m2)"
    by blast
  from retrieve_n_ok [OF rn le] idle
  have ok: "length data = length cs" "mset (map fst data) = mset cs" "pending m2 = []"
    "\<forall>t<length cs. \<exists>i. w (clock m + t) = Deliver i (snd (data ! t))"
    by auto
  have units: "\<forall>u\<in>set data. length (snd u) = n \<and> (\<forall>img\<in>set (snd u). length img = image_size)"
  proof
    fix u
    assume "u \<in> set data"
    then obtain t where t: "t < length data" "u = data ! t"
      by (auto simp: in_set_conv_nth)
    with ok obtain i where "w (clock m + t) = Deliver i (snd u)"
      by auto
    moreover from good obtain i' b where "w (clock m + t) = Deliver i' b" "length b = n"
      "\<forall>img\<in>set b. length img = image_size"
      by blast
    ultimately show "length (snd u) = n \<and> (\<forall>img\<in>set (snd u). length img = image_size)"
      by simp
  qed
  have "set (map fst data) = set cs"
    using ok(2) by (rule mset_eq_setD)
  with width have w': "\<forall>u\<in>set data. length (fst u) = d"
    by auto
  from ok(1) ne have dne: "data \<noteq> []"
    by auto
  note asm = assemble_total [OF dne units n w']
  have lens: "length (concat (map (\<lambda>(p, s). replicate (length s) p) data)) = n * length cs"
    "length (concat (map snd data)) = n * length cs"
    using assemble_rows(3,4) [OF asm units n] ok(1) by simp_all
  have rows: "\<forall>row\<in>set (concat (map (\<lambda>(p, s). replicate (length s) p) data)). length row = d"
    using w' by fastforce
  have imgs: "\<forall>img\<in>set (concat (map snd data)). length img = image_size"
    using units by auto
  have "get_data w m cs = (Inr (concat (map (\<lambda>(p, s). replicate (length s) p) data),
      concat (map snd data)), m2)"
    by (simp add: get_data_unfold rn drain_idle [OF ok(3)] asm)
  with ok(3) lens rows imgs show ?thesis
    by blast
qed

lemma blank_batch_good:
  "length blank_batch = 8" "\<forall>img\<in>set blank_batch. length img = image_size"
  by (simp_all add: blank_batch_def blank_image_def)

lemma get_data_crash_then_drain:
  assumes idle: "pending m = []"
    and j: "j < length cs" "w (clock m + j) = Crash"
    and others: "\<forall>t\<le>length cs. t \<noteq> j \<longrightarrow> w (clock m + t) \<noteq> Crash"
  shows "\<exists>m'. get_data w m cs = (Inl SimulatorFailure, m')
           \<and> clock m' = clock m + j + 1 + (length cs - j) \<and> pending m' = []"
proof -
  let ?m1 = "request_all m cs"
  have before: "\<forall>t<j. w (clock ?m1 + t) \<noteq> Crash"
    using others j(1) by simp
  have le: "length cs \<le> length (pending ?m1)"
    by simp
  from retrieve_n_first_crash [OF j(1) _ before le] j(2) idle
  obtain m2 where rn: "retrieve_n w (length cs) ?m1 = (Inl SimulatorFailure, m2)"
    and c2: "clock m2 = clock m + j + 1" and l2: "length (pending m2) + j = length cs"
    by auto
  have "\<forall>t<length (pending m2). w (clock m2 + t) \<noteq> Crash"
  proof (intro allI impI)
    fix t
    assume "t < length (pending m2)"
    with l2 have "j + 1 + t \<le> length cs" "j + 1 + t \<noteq> j"
      by simp_all
    with others have "w (clock m + (j + 1 + t)) \<noteq> Crash"
      by blast
    then show "w (clock m2 + t) \<noteq> Crash"
      by (simp add: c2 ac_simps)
  qed
  from drain_no_crash [OF this] obtain m3 where dr: "drain w m2 = (None, m3)"
    and e3: "pending m3 = []" and c3: "clock m3 = clock m2 + length (pending m2)"
    by blast
  have "length (pending m2) = length cs - j"
    using l2 by simp
  with c3 c2 have "clock m3 = clock m + j + 1 + (length cs - j)"
    by simp
  moreover have "get_data w m cs = (Inl SimulatorFailure, m3)"
    by (simp add: get_data_unfold rn dr)
  ultimately show ?thesis
    using e3 by blast
qed

lemma get_data_no_crash:
  assumes idle: "pending m = []"
    and nc: "\<forall>t<length cs. w (clock m + t) \<noteq> Crash"
  shows "\<exists>r m'. get_data w m cs = (r, m') \<and> clock m' = clock m + length cs \<and> pending m' = []"
proof -
  let ?m1 = "request_all m cs"
  have le: "length cs \<le> length (pending ?m1)"
    by simp
  from nc have "\<forall>t<length cs. w (clock ?m1 + t) \<noteq> Crash"
    by simp
  from retrieve_n_no_crash [OF this le] obtain data m2
    where rn: "retrieve_n w (length cs) ?m1 = (Inr data, m2)"
    by blast
  from retrieve_n_ok [OF rn le] idle have "pending m2 = []" "clock m2 = clock m + length cs"
    by auto
  then show ?thesis
    by (simp add: get_data_unfold rn drain_idle)
qed

text \<open>The unit that call number \<open>t\<close> of the comprehension returns: the batch the workers
  deliver to that call, with the configuration of the request it completes among those
  still outstanding after \<open>t\<close> calls.\<close>

lemma retrieve_unit:
  assumes "pending m \<noteq> []" and "retrieve w m = (Inr unit, m')"
  shows "\<exists>i b. w (clock m) = Deliver i b \<and> unit = (pending m ! (i mod length (pending m)), b)"
  using assms by (cases "w (clock m)") (auto simp: retrieve_def Let_def)

lemma retrieve_n_nth:
  "retrieve_n w k m = (Inr data, m') \<Longrightarrow> k \<le> length (pending m) \<Longrightarrow> t < k \<Longrightarrow>
     \<exists>i b. w (clock m + t) = Deliver i b
       \<and> data ! t = (pending (snd (retrieve_n w t m))
                        ! (i mod length (pending (snd (retrieve_n w t m)))), b)"
proof (induction k arbitrary: m m' data t)
  case 0
  then show ?case by simp
next
  case (Suc k)
  from Suc.prems(2) have ne: "pending m \<noteq> []"
    by auto
  obtain r1 m1 where r1: "retrieve w m = (r1, m1)"
    by (cases "retrieve w m")
  with Suc.prems(1) obtain unit where unit: "r1 = Inr unit"
    by (cases r1) auto
  obtain r2 m2 where r2: "retrieve_n w k m1 = (r2, m2)"
    by (cases "retrieve_n w k m1")
  with Suc.prems(1) r1 unit obtain units where units: "r2 = Inr units"
    and data: "data = unit # units"
    by (cases r2) auto
  from retrieve_cases [OF ne r1] unit
  have c1: "clock m1 = Suc (clock m)" and ln: "Suc (length (pending m1)) = length (pending m)"
    by simp_all
  show ?case
  proof (cases t)
    case 0
    from retrieve_unit [OF ne r1 [unfolded unit]] show ?thesis
      by (simp add: 0 data)
  next
    case (Suc t')
    with Suc.prems(3) have t': "t' < k"
      by simp
    from ln Suc.prems(2) have le: "k \<le> length (pending m1)"
      by simp
    from Suc.IH [OF r2 [unfolded units] le t'] obtain i b
      where ev: "w (clock m1 + t') = Deliver i b"
        and nth: "units ! t' = (pending (snd (retrieve_n w t' m1))
                        ! (i mod length (pending (snd (retrieve_n w t' m1)))), b)"
      by blast
    have "snd (retrieve_n w (Suc t') m) = snd (retrieve_n w t' m1)"
      by (simp add: r1 unit split: prod.splits sum.splits)
    with ev nth show ?thesis
      by (simp add: Suc data c1)
  qed
qed

lemma mset_concat_replicate:
  "mset (concat (map (\<lambda>x. replicate n x) xs)) = repeat_mset n (mset xs)"
  by (induction xs) simp_all

text \<open>A call that returns a pair, on a pool that was idle: the units behind the pair.\<close>

lemma get_data_units:
  assumes get: "get_data w m cs = (Inr (params, samples), m')"
    and idle: "pending m = []"
  shows "\<exists>data m1. retrieve_n w (length cs) (request_all m cs) = (Inr data, m1)
           \<and> assemble data = Inr (params, samples)
           \<and> length data = length cs \<and> mset (map fst data) = mset cs
           \<and> (\<forall>t<length cs. \<exists>i batch. w (clock m + t) = Deliver i batch
                 \<and> data ! t = (pending (snd (retrieve_n w t (request_all m cs)))
                      ! (i mod length (pending (snd (retrieve_n w t (request_all m cs))))), batch))"
proof -
  obtain retrieved m2 where rn: "retrieve_n w (length cs) (request_all m cs) = (retrieved, m2)"
    by (cases "retrieve_n w (length cs) (request_all m cs)")
  obtain raised m3 where dr: "drain w m2 = (raised, m3)"
    by (cases "drain w m2")
  from get rn dr have none: "raised = None"
    by (auto simp: get_data_unfold split: option.splits)
  with get rn dr obtain data where data: "retrieved = Inr data"
    and asm: "assemble data = Inr (params, samples)"
    by (cases retrieved) (auto simp: get_data_unfold)
  have le: "length cs \<le> length (pending (request_all m cs))"
    by simp
  from retrieve_n_ok [OF rn [unfolded data] le] idle
  have ok: "length data = length cs" "mset (map fst data) = mset cs"
    by auto
  have "\<exists>i batch. w (clock m + t) = Deliver i batch
                 \<and> data ! t = (pending (snd (retrieve_n w t (request_all m cs)))
                      ! (i mod length (pending (snd (retrieve_n w t (request_all m cs))))), batch)"
    if "t < length cs" for t
    using retrieve_n_nth [OF rn [unfolded data] le that] by simp
  with rn data asm ok show ?thesis
    by blast
qed

text \<open>
  C5, as amended. Let \<open>get_data\<close> be called with \<open>k\<close> configurations on a pool without
  outstanding requests. If it returns its pair of arrays, it has made exactly \<open>k\<close> calls
  of \<open>retrieve\<close> and the pool is left without outstanding requests. The \<open>k\<close> units these
  calls returned, from which the two arrays are assembled, are the batches the workers
  delivered, each with the configuration of the request it completes, and their
  configurations are, as a multiset, the submitted ones; the returned parameter array
  repeats the configuration of each unit once per image, so that with \<open>n > 0\<close> images in
  every batch it is, as a multiset, \<open>n\<close> copies of the submitted configurations. If none
  of the first \<open>k\<close> calls of \<open>retrieve\<close> raises, the same count and the empty pool hold
  whatever the assembly of the arrays does. If the call number \<open>j + 1\<close> (with \<open>j < k\<close>)
  raises and no call after it does, the cleanup makes exactly \<open>k - j\<close> further calls and
  leaves the pool without outstanding requests; the exception of the failed call leaves
  the function.
\<close>

theorem get_data_retrieves_and_drains:
  assumes idle: "pending m = []"
  shows "(\<forall>params samples m'. get_data w m cs = (Inr (params, samples), m') \<longrightarrow>
            clock m' = clock m + length cs \<and> pending m' = [] \<and>
            (\<exists>data m1. retrieve_n w (length cs) (request_all m cs) = (Inr data, m1) \<and>
               assemble data = Inr (params, samples) \<and>
               length data = length cs \<and> mset (map fst data) = mset cs \<and>
               (\<forall>t<length cs. \<exists>i batch. w (clock m + t) = Deliver i batch \<and>
                  data ! t = (pending (snd (retrieve_n w t (request_all m cs)))
                     ! (i mod length (pending (snd (retrieve_n w t (request_all m cs))))), batch)) \<and>
               params = concat (map (\<lambda>(\<theta>, batch). params_block \<theta> batch) data)) \<and>
            (\<forall>n. 0 < n \<and> (\<forall>t<length cs. \<forall>i batch. w (clock m + t) = Deliver i batch \<longrightarrow>
                              length batch = n) \<longrightarrow>
               mset params = repeat_mset n (mset cs)))
       \<and> ((\<forall>t<length cs. w (clock m + t) \<noteq> Crash) \<longrightarrow>
            (\<exists>r m'. get_data w m cs = (r, m') \<and> clock m' = clock m + length cs \<and> pending m' = []))
       \<and> (\<forall>j. j < length cs \<and> w (clock m + j) = Crash \<and>
              (\<forall>t\<le>length cs. t \<noteq> j \<longrightarrow> w (clock m + t) \<noteq> Crash) \<longrightarrow>
            (\<exists>m'. get_data w m cs = (Inl SimulatorFailure, m') \<and>
               clock m' = clock m + j + 1 + (length cs - j) \<and> pending m' = []))"
proof (intro conjI allI impI)
  fix params samples m'
  assume get: "get_data w m cs = (Inr (params, samples), m')"
  from get_data_returns [OF get idle]
  show "clock m' = clock m + length cs" and "pending m' = []"
    by blast+
  from get_data_units [OF get idle] obtain data m1
    where d: "retrieve_n w (length cs) (request_all m cs) = (Inr data, m1)"
      "assemble data = Inr (params, samples)"
      "length data = length cs" "mset (map fst data) = mset cs"
      "\<forall>t<length cs. \<exists>i batch. w (clock m + t) = Deliver i batch \<and>
                  data ! t = (pending (snd (retrieve_n w t (request_all m cs)))
                     ! (i mod length (pending (snd (retrieve_n w t (request_all m cs))))), batch)"
    by blast
  note p = assemble_Inr(2) [OF d(2)]
  from d p
  show "\<exists>data m1. retrieve_n w (length cs) (request_all m cs) = (Inr data, m1) \<and>
               assemble data = Inr (params, samples) \<and>
               length data = length cs \<and> mset (map fst data) = mset cs \<and>
               (\<forall>t<length cs. \<exists>i batch. w (clock m + t) = Deliver i batch \<and>
                  data ! t = (pending (snd (retrieve_n w t (request_all m cs)))
                     ! (i mod length (pending (snd (retrieve_n w t (request_all m cs))))), batch)) \<and>
               params = concat (map (\<lambda>(\<theta>, batch). params_block \<theta> batch) data)"
    by blast
  fix n
  assume n: "0 < n \<and> (\<forall>t<length cs. \<forall>i batch. w (clock m + t) = Deliver i batch \<longrightarrow>
                              length batch = n)"
  have len: "length (snd u) = n" if "u \<in> set data" for u
  proof -
    from that obtain t where t: "t < length data" "u = data ! t"
      by (auto simp: in_set_conv_nth)
    with d(3,5) obtain i batch where "w (clock m + t) = Deliver i batch" "snd u = batch"
      by fastforce
    with n t(1) d(3) show ?thesis
      by auto
  qed
  have "(case u of (\<theta>, batch) \<Rightarrow> params_block \<theta> batch) = replicate n (fst u)"
    if "u \<in> set data" for u
  proof -
    from len [OF that] n have "snd u \<noteq> []"
      by auto
    with len [OF that] show ?thesis
      by (cases u) (simp add: params_block_def)
  qed
  then have "map (\<lambda>(\<theta>, batch). params_block \<theta> batch) data = map (\<lambda>x. replicate n x) (map fst data)"
    by simp
  then have "mset params = repeat_mset n (mset (map fst data))"
    unfolding p by (simp only: mset_concat_replicate)
  then show "mset params = repeat_mset n (mset cs)"
    by (simp only: d(4))
next
  assume "\<forall>t<length cs. w (clock m + t) \<noteq> Crash"
  from get_data_no_crash [OF idle this]
  show "\<exists>r m'. get_data w m cs = (r, m') \<and> clock m' = clock m + length cs \<and> pending m' = []" .
next
  fix j
  assume "j < length cs \<and> w (clock m + j) = Crash \<and>
              (\<forall>t\<le>length cs. t \<noteq> j \<longrightarrow> w (clock m + t) \<noteq> Crash)"
  then show "\<exists>m'. get_data w m cs = (Inl SimulatorFailure, m') \<and>
               clock m' = clock m + j + 1 + (length cs - j) \<and> pending m' = []"
    using get_data_crash_then_drain [OF idle, of j cs w] by blast
qed

lemma bright_batch_good:
  "length bright_batch = 8" "\<forall>img\<in>set bright_batch. length img = image_size"
  by (simp_all add: bright_batch_def bright_image_def)

lemma reordered_two_calls:
  "get_data reordering_workers idle_mill [[1], [2]] =
     (Inr (replicate 8 [2] @ replicate 8 [1], bright_batch @ blank_batch), \<lparr>pending = [], clock = 2\<rparr>)"
proof -
  let ?data = "[([2], bright_batch), ([1::real], blank_batch)]"
  have rn: "retrieve_n reordering_workers (length [[1::real], [2]]) (request_all idle_mill [[1], [2]]) =
      (Inr ?data, \<lparr>pending = [], clock = 2\<rparr>)"
    by (simp add: reordering_workers_def idle_mill_def request_def retrieve_def)
  have "assemble ?data =
      Inr (concat (map (\<lambda>(p, s). replicate (length s) p) ?data), concat (map snd ?data))"
    by (rule assemble_total [where n = 8 and d = 1])
      (simp_all add: blank_batch_good bright_batch_good)
  then have "assemble ?data = Inr (replicate 8 [2] @ replicate 8 [1], bright_batch @ blank_batch)"
    by (simp add: blank_batch_good bright_batch_good)
  then show ?thesis
    unfolding get_data_unfold rn by (simp add: drain_idle)
qed

lemma reordering_workers_batches:
  "\<forall>t<length [[1::real], [2]]. \<forall>i batch.
      reordering_workers (clock idle_mill + t) = Deliver i batch \<longrightarrow>
        length batch = 8 \<and> (\<forall>img\<in>set batch. length img = image_size)"
  using blank_batch_good bright_batch_good by (simp add: reordering_workers_def)

theorem get_data_retrieves_and_drains_witness:
  "pending idle_mill = [] \<and>
   get_data reordering_workers idle_mill [[1], [2]] =
     (Inr (replicate 8 [2] @ replicate 8 [1], bright_batch @ blank_batch), \<lparr>pending = [], clock = 2\<rparr>) \<and>
   (\<forall>t. reordering_workers t \<noteq> Crash) \<and>
   (0::nat) < 8 \<and> length bright_batch = 8 \<and> length blank_batch = 8 \<and>
   (0::nat) < length [[1::real], [2]] \<and> recovering_workers (clock idle_mill + 0) = Crash \<and>
   (\<forall>t. recovering_workers (Suc t) \<noteq> Crash) \<and>
   clock \<lparr>pending = [], clock = 2\<rparr> = clock idle_mill + length [[1::real], [2]] \<and>
   (\<exists>data m1. retrieve_n reordering_workers (length [[1::real], [2]])
        (request_all idle_mill [[1], [2]]) = (Inr data, m1) \<and>
      assemble data = Inr (replicate 8 [2] @ replicate 8 [1], bright_batch @ blank_batch) \<and>
      length data = length [[1::real], [2]] \<and> mset (map fst data) = mset [[1::real], [2]] \<and>
      (\<forall>t<length [[1::real], [2]]. \<exists>i batch. reordering_workers (clock idle_mill + t) = Deliver i batch \<and>
          data ! t = (pending (snd (retrieve_n reordering_workers t (request_all idle_mill [[1::real], [2]])))
             ! (i mod length (pending (snd (retrieve_n reordering_workers t (request_all idle_mill [[1::real], [2]]))))), batch)) \<and>
      replicate 8 [2::real] @ replicate 8 [1] =
        concat (map (\<lambda>(\<theta>, batch). params_block \<theta> batch) data)) \<and>
   mset (replicate 8 [2::real] @ replicate 8 [1]) = repeat_mset 8 (mset [[1], [2]]) \<and>
   (\<exists>r m'. get_data reordering_workers idle_mill [[1], [2]] = (r, m') \<and>
      clock m' = clock idle_mill + length [[1::real], [2]] \<and> pending m' = []) \<and>
   (\<exists>m'. get_data recovering_workers idle_mill [[1], [2]] = (Inl SimulatorFailure, m') \<and>
      clock m' = clock idle_mill + 0 + 1 + (length [[1::real], [2]] - 0) \<and> pending m' = [])"
proof -
  have idle: "pending idle_mill = []"
    by (simp add: idle_mill_def)
  have nc: "\<forall>t. reordering_workers t \<noteq> Crash"
    by (simp add: reordering_workers_def)
  have c0: "recovering_workers (clock idle_mill + 0) = Crash"
    by (simp add: recovering_workers_def idle_mill_def)
  have later: "\<forall>t. recovering_workers (Suc t) \<noteq> Crash"
    by (simp add: recovering_workers_def)
  have others: "\<forall>t\<le>length [[1::real], [2]]. t \<noteq> 0 \<longrightarrow> recovering_workers (clock idle_mill + t) \<noteq> Crash"
    by (simp add: recovering_workers_def)
  have sizes: "0 < (8::nat) \<and> (\<forall>t<length [[1::real], [2]]. \<forall>i batch.
      reordering_workers (clock idle_mill + t) = Deliver i batch \<longrightarrow> length batch = 8)"
    using reordering_workers_batches by simp
  note inst1 = get_data_retrieves_and_drains [OF idle, of reordering_workers "[[1], [2]]"]
  note inst2 = get_data_retrieves_and_drains [OF idle, of recovering_workers "[[1], [2]]"]
  from inst1 reordered_two_calls
  have a: "clock \<lparr>pending = [], clock = 2\<rparr> = clock idle_mill + length [[1::real], [2]]"
    and b: "\<exists>data m1. retrieve_n reordering_workers (length [[1::real], [2]])
        (request_all idle_mill [[1], [2]]) = (Inr data, m1) \<and>
      assemble data = Inr (replicate 8 [2] @ replicate 8 [1], bright_batch @ blank_batch) \<and>
      length data = length [[1::real], [2]] \<and> mset (map fst data) = mset [[1::real], [2]] \<and>
      (\<forall>t<length [[1::real], [2]]. \<exists>i batch. reordering_workers (clock idle_mill + t) = Deliver i batch \<and>
          data ! t = (pending (snd (retrieve_n reordering_workers t (request_all idle_mill [[1::real], [2]])))
             ! (i mod length (pending (snd (retrieve_n reordering_workers t (request_all idle_mill [[1::real], [2]]))))), batch)) \<and>
      replicate 8 [2::real] @ replicate 8 [1] =
        concat (map (\<lambda>(\<theta>, batch). params_block \<theta> batch) data)"
    and all_n: "\<forall>n. 0 < n \<and> (\<forall>t<length [[1::real], [2]]. \<forall>i batch.
          reordering_workers (clock idle_mill + t) = Deliver i batch \<longrightarrow> length batch = n) \<longrightarrow>
        mset (replicate 8 [2::real] @ replicate 8 [1]) = repeat_mset n (mset [[1], [2]])"
    by blast+
  from all_n sizes
  have e: "mset (replicate 8 [2::real] @ replicate 8 [1]) = repeat_mset 8 (mset [[1], [2]])"
    by blast
  from inst1 nc
  have d: "\<exists>r m'. get_data reordering_workers idle_mill [[1], [2]] = (r, m') \<and>
      clock m' = clock idle_mill + length [[1::real], [2]] \<and> pending m' = []"
    by blast
  from inst2 c0 others
  have c: "\<exists>m'. get_data recovering_workers idle_mill [[1], [2]] = (Inl SimulatorFailure, m') \<and>
      clock m' = clock idle_mill + 0 + 1 + (length [[1::real], [2]] - 0) \<and> pending m' = []"
    by (metis length_greater_0_conv list.discI)
  from idle reordered_two_calls nc c0 later a b e d c blank_batch_good(1) bright_batch_good(1)
  show ?thesis
    by (intro conjI) simp_all
qed

text \<open>
  The claim as stated fails when a call of \<open>retrieve\<close> in the cleanup raises as well: with
  two configurations and workers that always fail, the first call raises (\<open>j = 0\<close>), the
  cleanup makes one call instead of two, and both requests are still outstanding when
  the exception leaves \<open>get_data\<close>.
\<close>

theorem cleanup_is_cut_short:
  "get_data broken_workers idle_mill [[1], [2]] =
     (Inl SimulatorFailure, \<lparr>pending = [[1], [2]], clock = 2\<rparr>)"
proof -
  have rn: "retrieve_n broken_workers (length [[1::real], [2]]) (request_all idle_mill [[1], [2]]) =
      (Inl SimulatorFailure, \<lparr>pending = [[1], [2]], clock = 1\<rparr>)"
    by (simp add: broken_workers_def idle_mill_def request_def retrieve_def)
  have "drain broken_workers \<lparr>pending = [[1], [2]], clock = 1\<rparr> =
      (Some SimulatorFailure, \<lparr>pending = [[1], [2]], clock = 2\<rparr>)"
    by (simp add: drain.simps n_requests_def retrieve_def broken_workers_def)
  then show ?thesis
    unfolding get_data_unfold rn by simp
qed

text \<open>Without configurations there is nothing to stack, and the call raises.\<close>

lemma get_data_no_configurations:
  "pending m = [] \<Longrightarrow> get_data w m [] = (Inl ConcatenateError, m)"
  by (simp add: get_data_unfold drain_idle assemble_def vstack_def)

text \<open>
  C6. Let \<open>get_data\<close> return the arrays \<open>params\<close> and \<open>samples\<close> for \<open>k\<close> configurations
  submitted to an idle pool whose workers complete each unit with a batch of \<open>8\<close> images
  of \<open>32 \<times> 32 \<times> 1\<close> values. Then both arrays have \<open>8 k\<close> rows, and row by row they pair each
  image with the configuration of the request that produced it: the unit returned by call
  number \<open>t\<close> of \<open>retrieve\<close> is the batch the workers deliver to that call together with the
  configuration of the request this delivery completes (the one at the delivered index
  among the requests still outstanding after \<open>t\<close> calls), and it contributes one row per
  image, with that configuration, in the order of retrieval, whatever the order of
  submission was.
\<close>

theorem get_data_rows_keep_configuration:
  assumes get: "get_data w m cs = (Inr (params, samples), m')"
    and idle: "pending m = []"
    and units: "\<forall>t<length cs. \<forall>i batch. w (clock m + t) = Deliver i batch \<longrightarrow>
                  length batch = 8 \<and> (\<forall>img\<in>set batch. length img = image_size)"
  shows "\<exists>data m1. retrieve_n w (length cs) (request_all m cs) = (Inr data, m1)
           \<and> length data = length cs \<and> mset (map fst data) = mset cs
           \<and> (\<forall>t<length cs. \<exists>i batch. w (clock m + t) = Deliver i batch
                 \<and> data ! t = (pending (snd (retrieve_n w t (request_all m cs)))
                      ! (i mod length (pending (snd (retrieve_n w t (request_all m cs))))), batch))
           \<and> zip params samples = concat (map (\<lambda>(\<theta>, batch). map (Pair \<theta>) batch) data)
           \<and> length params = length samples \<and> length samples = 8 * length cs"
proof -
  from get_data_units [OF get idle] obtain data m1
    where d: "retrieve_n w (length cs) (request_all m cs) = (Inr data, m1)"
      "assemble data = Inr (params, samples)"
      "length data = length cs" "mset (map fst data) = mset cs"
      "\<forall>t<length cs. \<exists>i batch. w (clock m + t) = Deliver i batch
                 \<and> data ! t = (pending (snd (retrieve_n w t (request_all m cs)))
                      ! (i mod length (pending (snd (retrieve_n w t (request_all m cs))))), batch)"
    by blast
  have good: "\<forall>u\<in>set data. length (snd u) = 8 \<and> (\<forall>img\<in>set (snd u). length img = image_size)"
  proof
    fix u
    assume "u \<in> set data"
    then obtain t where t: "t < length data" "u = data ! t"
      by (auto simp: in_set_conv_nth)
    with d(3,5) obtain i batch where "w (clock m + t) = Deliver i batch" "snd u = batch"
      by fastforce
    with units t(1) d(3) show "length (snd u) = 8 \<and> (\<forall>img\<in>set (snd u). length img = image_size)"
      by auto
  qed
  have pos: "(0::nat) < 8"
    by simp
  note rows = assemble_rows [OF d(2) good pos]
  have "zip params samples = concat (map (\<lambda>(\<theta>, batch). map (Pair \<theta>) batch) data)"
    unfolding rows(1,2) by (rule zip_blocks)
  moreover have "length params = length samples" "length samples = 8 * length cs"
    using rows(3,4) d(3) by simp_all
  ultimately show ?thesis
    using d(1,3,4,5) by blast
qed

theorem get_data_rows_keep_configuration_witness:
  "get_data reordering_workers idle_mill [[1], [2]] =
     (Inr (replicate 8 [2] @ replicate 8 [1], bright_batch @ blank_batch), \<lparr>pending = [], clock = 2\<rparr>) \<and>
   pending idle_mill = [] \<and>
   reordering_workers 0 = Deliver 1 bright_batch \<and>
   (\<forall>t. reordering_workers (Suc t) = Deliver 0 blank_batch) \<and>
   length bright_batch = 8 \<and> list_all (\<lambda>img. length img = image_size) bright_batch \<and>
   length blank_batch = 8 \<and> list_all (\<lambda>img. length img = image_size) blank_batch \<and>
   (\<exists>data m1. retrieve_n reordering_workers (length [[1::real], [2]])
        (request_all idle_mill [[1], [2]]) = (Inr data, m1)
      \<and> length data = length [[1::real], [2]] \<and> mset (map fst data) = mset [[1::real], [2]]
      \<and> (\<forall>t<length [[1::real], [2]]. \<exists>i batch. reordering_workers (clock idle_mill + t) = Deliver i batch \<and>
          data ! t = (pending (snd (retrieve_n reordering_workers t (request_all idle_mill [[1::real], [2]])))
             ! (i mod length (pending (snd (retrieve_n reordering_workers t (request_all idle_mill [[1::real], [2]]))))), batch))
      \<and> zip (replicate 8 [2::real] @ replicate 8 [1]) (bright_batch @ blank_batch) =
          concat (map (\<lambda>(\<theta>, batch). map (Pair \<theta>) batch) data)
      \<and> length (replicate 8 [2::real] @ replicate 8 [1]) = length (bright_batch @ blank_batch)
      \<and> length (bright_batch @ blank_batch) = 8 * length [[1::real], [2]])"
proof -
  have idle: "pending idle_mill = []"
    by (simp add: idle_mill_def)
  have w: "reordering_workers 0 = Deliver 1 bright_batch"
    "\<forall>t. reordering_workers (Suc t) = Deliver 0 blank_batch"
    by (simp_all add: reordering_workers_def)
  have b: "list_all (\<lambda>img. length img = image_size) bright_batch"
    "list_all (\<lambda>img. length img = image_size) blank_batch"
    using blank_batch_good bright_batch_good by (simp_all add: list_all_iff)
  note c = get_data_rows_keep_configuration [OF reordered_two_calls idle reordering_workers_batches]
  from reordered_two_calls idle w bright_batch_good(1) b(1) blank_batch_good(1) b(2) c
  show ?thesis
    by (intro conjI)
qed

lemma distribution_opt_total:
  assumes "\<forall>x\<in>set X. length x = image_size" and "\<forall>row\<in>set rows. length row = 1"
    and "length X = length rows" and "rows \<noteq> []"
  shows "\<exists>st'. distribution_opt env st X rows = Inr st'"
proof -
  have "list_all (\<lambda>row. length row = 1) rows"
    using assms(2) by (simp add: list_all_iff)
  from concat_rows_length [OF this] have "length (concat rows) = length X"
    using assms(3) by simp
  moreover have "concat rows \<noteq> []"
    using calculation assms(3,4) by (metis length_0_conv)
  moreover have "proba env st X \<noteq> []"
    using assms(3,4) by (auto simp: proba_def)
  ultimately show ?thesis
    using assms(1,2)
    by (simp add: distribution_opt_def broadcast_mul_def Let_def list_all_iff
        apply_adam_components)
qed

lemma first_step_runs:
  "distribution_opt steady_env (global_variables_initializer 1 0) [blank_image] [[1]] =
     Inr stepped_session"
proof -
  have "\<exists>st'. distribution_opt steady_env (global_variables_initializer 1 0) [blank_image] [[1]] = Inr st'"
    by (rule distribution_opt_total) (simp_all add: blank_image_def)
  then show ?thesis
    by (auto simp: stepped_session_def)
qed

text \<open>
  C2. A run of \<open>distribution_opt\<close> on a batch of \<open>\<theta>\<close> and the scores of as many images
  takes the scalar loss \<open>L\<close>, the mean over the batch of \<open>neg_log_prob(\<theta>) * reward\<close>, and
  performs one Adam step on it: with \<open>g_mean\<close> and \<open>g_sigma_raw\<close> the derivatives of \<open>L\<close>
  in \<open>\<mu>\<close> and in \<open>\<sigma>'\<close> at the current values, the new \<open>\<mu>\<close> and \<open>\<sigma>'\<close> and their
  accumulators are those of one application of the Adam update each, with the constant
  learning rate \<open>0.02\<close>. Nothing else of the session changes but the two running powers
  of the optimiser; in particular the weights of the discriminator stay.
\<close>

theorem update_is_one_adam_step:
  assumes run: "distribution_opt env st X rows = Inr st'"
    and len: "length X = length rows"
  shows "\<exists>L g_mean g_sigma_raw.
      (\<forall>\<mu> s. detector_params_loss [\<mu>] [s] rows (proba env st X) = Inr (L \<mu> s)) \<and>
      (\<forall>\<mu> s. L \<mu> s =
         sum_list (map (\<lambda>(\<theta>, p). (ln (softplus s) + 0.5 * (\<theta> - \<mu>) ^ 2 / (softplus s) ^ 2) * p)
           (zip (concat rows) (proba env st X))) / real (length rows)) \<and>
      DERIV (\<lambda>x. L x (detector_params_sigma_raw st)) (detector_params_mean st) :> g_mean \<and>
      DERIV (\<lambda>x. L (detector_params_mean st) x) (detector_params_sigma_raw st) :> g_sigma_raw \<and>
      (detector_params_mean st', adam_m_mean st', adam_v_mean st') =
         apply_adam (beta1_power st) (beta2_power st)
           (detector_params_mean st, adam_m_mean st, adam_v_mean st) g_mean \<and>
      (detector_params_sigma_raw st', adam_m_sigma_raw st', adam_v_sigma_raw st') =
         apply_adam (beta1_power st) (beta2_power st)
           (detector_params_sigma_raw st, adam_m_sigma_raw st, adam_v_sigma_raw st) g_sigma_raw \<and>
      detector_params_mean st' =
         detector_params_mean st
           - 0.02 * sqrt (1 - beta2_power st) / (1 - beta1_power st)
               * (0.9 * adam_m_mean st + (1 - 0.9) * g_mean)
               / (sqrt (0.999 * adam_v_mean st + (1 - 0.999) * g_mean * g_mean) + 1 / 10 ^ 8) \<and>
      detector_params_sigma_raw st' =
         detector_params_sigma_raw st
           - 0.02 * sqrt (1 - beta2_power st) / (1 - beta1_power st)
               * (0.9 * adam_m_sigma_raw st + (1 - 0.9) * g_sigma_raw)
               / (sqrt (0.999 * adam_v_sigma_raw st + (1 - 0.999) * g_sigma_raw * g_sigma_raw)
                   + 1 / 10 ^ 8) \<and>
      beta1_power st' = beta1_power st * 0.9 \<and> beta2_power st' = beta2_power st * 0.999 \<and>
      discriminator_weights st' = discriminator_weights st \<and> random_state st' = random_state st"
proof -
  define thetas where "thetas = concat rows"
  define P where "P = proba env st X"
  define L where "L = (\<lambda>\<mu> s. sum_list (map (entry_loss \<mu> s) (zip thetas P)) / real (length thetas))"
  define g1 where "g1 = reduce_mean (map (\<lambda>(x, y). x * y)
      (zip (map (neg_log_prob_d_mean (detector_params_mean st) (detector_params_sigma_raw st)) thetas) P))"
  define g2 where "g2 = reduce_mean (map (\<lambda>(x, y). x * y)
      (zip (map (neg_log_prob_d_sigma_raw (detector_params_mean st) (detector_params_sigma_raw st)) thetas) P))"
  note step = distribution_opt_step [OF run len, folded thetas_def P_def, folded g1_def g2_def]
  have rows: "rows = map (\<lambda>\<theta>. [\<theta>]) thetas"
    unfolding thetas_def by (rule rows_of_width_one [OF step(1)])
  have n: "length thetas = length rows"
    unfolding thetas_def by (rule concat_rows_length [OF step(1)])
  have lp: "length P = length thetas"
    using n len by (simp add: P_def)
  have loss: "detector_params_loss [\<mu>] [s] rows P = Inr (L \<mu> s)" for \<mu> s
    unfolding L_def by (subst rows) (rule loss_value [OF lp])
  have formula: "L \<mu> s =
         sum_list (map (\<lambda>(\<theta>, p). (ln (softplus s) + 0.5 * (\<theta> - \<mu>) ^ 2 / (softplus s) ^ 2) * p)
           (zip thetas P)) / real (length rows)" for \<mu> s
    by (simp add: L_def entry_loss_def n)
  have d1: "DERIV (\<lambda>x. L x (detector_params_sigma_raw st)) (detector_params_mean st) :> g1"
    unfolding L_def g1_def by (rule DERIV_loss_mean [OF lp])
  have d2: "DERIV (\<lambda>x. L (detector_params_mean st) x) (detector_params_sigma_raw st) :> g2"
    unfolding L_def g2_def by (rule DERIV_loss_sigma_raw [OF lp])
  have fields:
    "detector_params_mean st' = fst (apply_adam (beta1_power st) (beta2_power st)
       (detector_params_mean st, adam_m_mean st, adam_v_mean st) g1)"
    "adam_m_mean st' = beta1 * adam_m_mean st + (1 - beta1) * g1"
    "adam_v_mean st' = beta2 * adam_v_mean st + (1 - beta2) * g1 * g1"
    "detector_params_sigma_raw st' = fst (apply_adam (beta1_power st) (beta2_power st)
       (detector_params_sigma_raw st, adam_m_sigma_raw st, adam_v_sigma_raw st) g2)"
    "adam_m_sigma_raw st' = beta1 * adam_m_sigma_raw st + (1 - beta1) * g2"
    "adam_v_sigma_raw st' = beta2 * adam_v_sigma_raw st + (1 - beta2) * g2 * g2"
    by (subst step(3), simp)+
  have a1: "(detector_params_mean st', adam_m_mean st', adam_v_mean st') =
         apply_adam (beta1_power st) (beta2_power st)
           (detector_params_mean st, adam_m_mean st, adam_v_mean st) g1"
    by (simp add: fields apply_adam_components)
  have a2: "(detector_params_sigma_raw st', adam_m_sigma_raw st', adam_v_sigma_raw st') =
         apply_adam (beta1_power st) (beta2_power st)
           (detector_params_sigma_raw st, adam_m_sigma_raw st, adam_v_sigma_raw st) g2"
    by (simp add: fields apply_adam_components)
  have e1: "detector_params_mean st' =
         detector_params_mean st
           - 0.02 * sqrt (1 - beta2_power st) / (1 - beta1_power st)
               * (0.9 * adam_m_mean st + (1 - 0.9) * g1)
               / (sqrt (0.999 * adam_v_mean st + (1 - 0.999) * g1 * g1) + 1 / 10 ^ 8)"
    using a1 by (simp add: apply_adam_components learning_rate_def beta1_def beta2_def epsilon_def)
  have e2: "detector_params_sigma_raw st' =
         detector_params_sigma_raw st
           - 0.02 * sqrt (1 - beta2_power st) / (1 - beta1_power st)
               * (0.9 * adam_m_sigma_raw st + (1 - 0.9) * g2)
               / (sqrt (0.999 * adam_v_sigma_raw st + (1 - 0.999) * g2 * g2) + 1 / 10 ^ 8)"
    using a2 by (simp add: apply_adam_components learning_rate_def beta1_def beta2_def epsilon_def)
  note frame = distribution_opt_frame [OF run]
  have b: "beta1_power st' = beta1_power st * 0.9" "beta2_power st' = beta2_power st * 0.999"
    using frame(3,4) by (simp_all add: beta1_def beta2_def)
  show ?thesis
    apply (rule exI [of _ L])
    apply (rule exI [of _ g1])
    apply (rule exI [of _ g2])
    apply (fold thetas_def P_def)
    apply (intro conjI allI loss formula d1 d2 a1 a2 e1 e2 b frame(1,2))
    done
qed

theorem update_is_one_adam_step_witness:
  "distribution_opt steady_env (global_variables_initializer 1 0) [blank_image] [[1]] =
     Inr stepped_session \<and>
   length [blank_image] = length [[1::real]] \<and>
   (\<exists>L g_mean g_sigma_raw.
      (\<forall>\<mu> s. detector_params_loss [\<mu>] [s] [[1]] (proba steady_env (global_variables_initializer 1 0) [blank_image]) = Inr (L \<mu> s)) \<and>
      (\<forall>\<mu> s. L \<mu> s =
         sum_list (map (\<lambda>(\<theta>, p). (ln (softplus s) + 0.5 * (\<theta> - \<mu>) ^ 2 / (softplus s) ^ 2) * p)
           (zip (concat [[1]]) (proba steady_env (global_variables_initializer 1 0) [blank_image]))) / real (length [[1::real]])) \<and>
      DERIV (\<lambda>x. L x (detector_params_sigma_raw (global_variables_initializer (1::real) 0))) (detector_params_mean (global_variables_initializer (1::real) 0)) :> g_mean \<and>
      DERIV (\<lambda>x. L (detector_params_mean (global_variables_initializer (1::real) 0)) x) (detector_params_sigma_raw (global_variables_initializer (1::real) 0)) :> g_sigma_raw \<and>
      (detector_params_mean stepped_session, adam_m_mean stepped_session, adam_v_mean stepped_session) =
         apply_adam (beta1_power (global_variables_initializer (1::real) 0)) (beta2_power (global_variables_initializer (1::real) 0))
           (detector_params_mean (global_variables_initializer (1::real) 0), adam_m_mean (global_variables_initializer (1::real) 0), adam_v_mean (global_variables_initializer (1::real) 0)) g_mean \<and>
      (detector_params_sigma_raw stepped_session, adam_m_sigma_raw stepped_session, adam_v_sigma_raw stepped_session) =
         apply_adam (beta1_power (global_variables_initializer (1::real) 0)) (beta2_power (global_variables_initializer (1::real) 0))
           (detector_params_sigma_raw (global_variables_initializer (1::real) 0), adam_m_sigma_raw (global_variables_initializer (1::real) 0), adam_v_sigma_raw (global_variables_initializer (1::real) 0)) g_sigma_raw \<and>
      detector_params_mean stepped_session =
         detector_params_mean (global_variables_initializer (1::real) 0)
           - 0.02 * sqrt (1 - beta2_power (global_variables_initializer (1::real) 0)) / (1 - beta1_power (global_variables_initializer (1::real) 0))
               * (0.9 * adam_m_mean (global_variables_initializer (1::real) 0) + (1 - 0.9) * g_mean)
               / (sqrt (0.999 * adam_v_mean (global_variables_initializer (1::real) 0) + (1 - 0.999) * g_mean * g_mean) + 1 / 10 ^ 8) \<and>
      detector_params_sigma_raw stepped_session =
         detector_params_sigma_raw (global_variables_initializer (1::real) 0)
           - 0.02 * sqrt (1 - beta2_power (global_variables_initializer (1::real) 0)) / (1 - beta1_power (global_variables_initializer (1::real) 0))
               * (0.9 * adam_m_sigma_raw (global_variables_initializer (1::real) 0) + (1 - 0.9) * g_sigma_raw)
               / (sqrt (0.999 * adam_v_sigma_raw (global_variables_initializer (1::real) 0) + (1 - 0.999) * g_sigma_raw * g_sigma_raw)
                   + 1 / 10 ^ 8) \<and>
      beta1_power stepped_session = beta1_power (global_variables_initializer (1::real) 0) * 0.9 \<and> beta2_power stepped_session = beta2_power (global_variables_initializer (1::real) 0) * 0.999 \<and>
      discriminator_weights stepped_session = discriminator_weights (global_variables_initializer (1::real) 0) \<and> random_state stepped_session = random_state (global_variables_initializer (1::real) 0))"
proof -
  have len: "length [blank_image] = length [[1::real]]"
    by simp
  from update_is_one_adam_step [OF first_step_runs len] first_step_runs len
  show ?thesis
    by (intro conjI)
qed

lemma sum_list_zeros: "\<forall>x\<in>set xs. x = (0::real) \<Longrightarrow> sum_list xs = 0"
  by (induction xs) simp_all

lemma broadcast_mul_zero:
  assumes "broadcast_mul xs ys = Inr zs" and "\<forall>y\<in>set ys. y = 0"
  shows "reduce_mean zs = 0"
proof -
  have "\<forall>z\<in>set zs. z = 0"
  proof (cases "length xs = length ys")
    case True
    with assms(1) have zs: "zs = map (\<lambda>(x, y). x * y) (zip xs ys)"
      by (simp add: broadcast_mul_def)
    have "y = 0" if "(x, y) \<in> set (zip xs ys)" for x y
      using set_zip_rightD [OF that] assms(2) by simp
    then show ?thesis
      unfolding zs by auto
  next
    case False
    show ?thesis
    proof (cases "length xs = 1")
      case True
      with False assms show ?thesis
        by (auto simp: broadcast_mul_def)
    next
      case ne: False
      with False assms have l: "length ys = 1" and zs: "zs = map (\<lambda>x. x * hd ys) xs"
        by (auto simp: broadcast_mul_def split: if_splits)
      from l obtain y where "ys = [y]"
        by (cases ys) auto
      with assms(2) have "hd ys = 0"
        by simp
      then show ?thesis
        by (simp add: zs)
    qed
  qed
  then show ?thesis
    by (simp add: reduce_mean_def sum_list_zeros)
qed

text \<open>What a step does when every score is \<open>0\<close>: both gradients vanish, and the
  variables move by what the first-moment accumulators still hold.\<close>

lemma zero_reward_step:
  assumes run: "distribution_opt env st X rows = Inr st'"
    and zero: "\<forall>x\<in>set X. discriminator env (discriminator_weights st) x = 0"
  shows "adam_m_mean st' = beta1 * adam_m_mean st"
    and "adam_m_sigma_raw st' = beta1 * adam_m_sigma_raw st"
    and "detector_params_mean st' =
           detector_params_mean st
             - learning_rate * sqrt (1 - beta2_power st) / (1 - beta1_power st)
                 * (beta1 * adam_m_mean st) / (sqrt (beta2 * adam_v_mean st) + epsilon)"
    and "detector_params_sigma_raw st' =
           detector_params_sigma_raw st
             - learning_rate * sqrt (1 - beta2_power st) / (1 - beta1_power st)
                 * (beta1 * adam_m_sigma_raw st) / (sqrt (beta2 * adam_v_sigma_raw st) + epsilon)"
proof -
  let ?\<mu> = "detector_params_mean st" and ?s = "detector_params_sigma_raw st"
  have z: "\<forall>y\<in>set (proba env st X). y = 0"
    using zero by (auto simp: proba_def)
  from run obtain dm ds
    where dm: "broadcast_mul (map (neg_log_prob_d_mean ?\<mu> ?s) (concat rows)) (proba env st X) = Inr dm"
      and ds: "broadcast_mul (map (neg_log_prob_d_sigma_raw ?\<mu> ?s) (concat rows)) (proba env st X) = Inr ds"
    by (auto simp: distribution_opt_def Let_def split: if_splits sum.splits)
  have g: "reduce_mean dm = 0" "reduce_mean ds = 0"
    using broadcast_mul_zero [OF dm z] broadcast_mul_zero [OF ds z] by simp_all
  from run have st': "st' = st\<lparr>detector_params_mean :=
        fst (apply_adam (beta1_power st) (beta2_power st) (?\<mu>, adam_m_mean st, adam_v_mean st) 0),
      detector_params_sigma_raw :=
        fst (apply_adam (beta1_power st) (beta2_power st) (?s, adam_m_sigma_raw st, adam_v_sigma_raw st) 0),
      adam_m_mean := beta1 * adam_m_mean st, adam_v_mean := beta2 * adam_v_mean st,
      adam_m_sigma_raw := beta1 * adam_m_sigma_raw st, adam_v_sigma_raw := beta2 * adam_v_sigma_raw st,
      beta1_power := beta1_power st * beta1, beta2_power := beta2_power st * beta2\<rparr>"
    by (simp add: distribution_opt_def Let_def dm ds g apply_adam_components split: if_splits)
  show "adam_m_mean st' = beta1 * adam_m_mean st"
    by (subst st') simp
  show "adam_m_sigma_raw st' = beta1 * adam_m_sigma_raw st"
    by (subst st') simp
  show "detector_params_mean st' =
           detector_params_mean st
             - learning_rate * sqrt (1 - beta2_power st) / (1 - beta1_power st)
                 * (beta1 * adam_m_mean st) / (sqrt (beta2 * adam_v_mean st) + epsilon)"
    by (subst st') (simp add: apply_adam_components)
  show "detector_params_sigma_raw st' =
           detector_params_sigma_raw st
             - learning_rate * sqrt (1 - beta2_power st) / (1 - beta1_power st)
                 * (beta1 * adam_m_sigma_raw st) / (sqrt (beta2 * adam_v_sigma_raw st) + epsilon)"
    by (subst st') (simp add: apply_adam_components)
qed

lemma zero_reward_loss:
  assumes shape: "list_all (\<lambda>row. length row = 1) rows"
    and len: "length X = length rows"
    and zero: "\<forall>x\<in>set X. discriminator env (discriminator_weights st) x = 0"
  shows "detector_params_loss [\<mu>] [s] rows (proba env st X) = Inr 0"
proof -
  have lp: "length (proba env st X) = length (concat rows)"
    using concat_rows_length [OF shape] len by simp
  have "\<forall>a\<in>set (zip (concat rows) (proba env st X)). entry_loss \<mu> s a = 0"
    using zero by (auto simp: entry_loss_def proba_def dest!: set_zip_rightD)
  then have "sum_list (map (entry_loss \<mu> s) (zip (concat rows) (proba env st X))) = 0"
    by (intro sum_list_zeros) auto
  with loss_value [OF lp, of \<mu> s] rows_of_width_one [OF shape] show ?thesis
    by simp
qed

text \<open>
  C4, as amended. When the reward is \<open>0\<close> on the whole batch, the loss is \<open>0\<close> for all
  values of the variables and both gradients vanish, so the first-moment accumulators
  only decay; the Adam step moves \<open>\<mu>\<close> and \<open>\<sigma>'\<close> by what these accumulators still hold, and
  it leaves a variable unchanged when its first-moment accumulator is \<open>0\<close>, as it is
  before the first step with a gradient.
\<close>

theorem zero_reward_update:
  assumes run: "distribution_opt env st X rows = Inr st'"
    and zero: "\<forall>x\<in>set X. discriminator env (discriminator_weights st) x = 0"
  shows "(length X = length rows \<longrightarrow>
            (\<forall>\<mu> s. detector_params_loss [\<mu>] [s] rows (proba env st X) = Inr 0)) \<and>
         adam_m_mean st' = beta1 * adam_m_mean st \<and>
         adam_m_sigma_raw st' = beta1 * adam_m_sigma_raw st \<and>
         detector_params_mean st' =
           detector_params_mean st
             - learning_rate * sqrt (1 - beta2_power st) / (1 - beta1_power st)
                 * (beta1 * adam_m_mean st) / (sqrt (beta2 * adam_v_mean st) + epsilon) \<and>
         detector_params_sigma_raw st' =
           detector_params_sigma_raw st
             - learning_rate * sqrt (1 - beta2_power st) / (1 - beta1_power st)
                 * (beta1 * adam_m_sigma_raw st) / (sqrt (beta2 * adam_v_sigma_raw st) + epsilon) \<and>
         (adam_m_mean st = 0 \<longrightarrow> detector_params_mean st' = detector_params_mean st) \<and>
         (adam_m_sigma_raw st = 0 \<longrightarrow> detector_params_sigma_raw st' = detector_params_sigma_raw st)"
proof -
  from run have shape: "list_all (\<lambda>row. length row = 1) rows"
    by (auto simp: distribution_opt_def split: if_splits)
  note z = zero_reward_step [OF run zero]
  have "detector_params_loss [\<mu>] [s] rows (proba env st X) = Inr 0" if "length X = length rows" for \<mu> s
    using zero_reward_loss [OF shape that zero] .
  moreover have "detector_params_mean st' = detector_params_mean st" if "adam_m_mean st = 0"
    using z(3) that by simp
  moreover have "detector_params_sigma_raw st' = detector_params_sigma_raw st" if "adam_m_sigma_raw st = 0"
    using z(4) that by simp
  ultimately show ?thesis
    using z by blast
qed

lemma quiet_step_runs:
  "distribution_opt steady_env (global_variables_initializer 0 0) [blank_image] [[1]] =
     Inr quiet_session"
proof -
  have "\<exists>st'. distribution_opt steady_env (global_variables_initializer 0 0) [blank_image] [[1]] = Inr st'"
    by (rule distribution_opt_total) (simp_all add: blank_image_def)
  then show ?thesis
    by (auto simp: quiet_session_def)
qed

theorem zero_reward_update_witness:
  "distribution_opt steady_env (global_variables_initializer 0 0) [blank_image] [[1]] =
     Inr quiet_session \<and>
   proba steady_env (global_variables_initializer 0 0) [blank_image] = [0] \<and>
   length [blank_image] = length [[1::real]] \<and>
   adam_m_mean (global_variables_initializer (0::real) 0) = 0 \<and>
   adam_m_sigma_raw (global_variables_initializer (0::real) 0) = 0 \<and>
   detector_params_loss [0] [2] [[1]] (proba steady_env (global_variables_initializer 0 0) [blank_image])
     = Inr 0 \<and>
   detector_params_mean quiet_session = 0 \<and>
   detector_params_sigma_raw quiet_session = 2"
proof -
  have zero: "\<forall>x\<in>set [blank_image].
      discriminator steady_env (discriminator_weights (global_variables_initializer (0::real) 0)) x = 0"
    by (simp add: steady_env_def global_variables_initializer_def)
  have p: "proba steady_env (global_variables_initializer 0 0) [blank_image] = [0]"
    by (simp add: proba_def steady_env_def global_variables_initializer_def)
  have m: "adam_m_mean (global_variables_initializer (0::real) 0) = 0"
    "adam_m_sigma_raw (global_variables_initializer (0::real) 0) = 0"
    "detector_params_mean (global_variables_initializer (0::real) 0) = 0"
    "detector_params_sigma_raw (global_variables_initializer (0::real) 0) = 2"
    by (simp_all add: global_variables_initializer_def)
  from zero_reward_update [OF quiet_step_runs zero] m
  have "detector_params_loss [0] [2] [[1]] (proba steady_env (global_variables_initializer 0 0) [blank_image])
     = Inr 0" "detector_params_mean quiet_session = 0" "detector_params_sigma_raw quiet_session = 2"
    by simp_all
  with quiet_step_runs p m show ?thesis
    by simp
qed

lemma stepped_session_fields:
  "adam_m_mean stepped_session = (1 - beta1) * (- 1 / (softplus 2) ^ 2)"
  "adam_v_mean stepped_session = (1 - beta2) * (- 1 / (softplus 2) ^ 2) * (- 1 / (softplus 2) ^ 2)"
  "beta1_power stepped_session = beta1 * beta1"
  "beta2_power stepped_session = beta2 * beta2"
proof -
  have len: "length [blank_image] = length [[1::real]]"
    by simp
  note step = distribution_opt_step(3) [OF first_step_runs len]
  note defs = reduce_mean_def proba_def steady_env_def global_variables_initializer_def
    neg_log_prob_d_mean_def
  show "adam_m_mean stepped_session = (1 - beta1) * (- 1 / (softplus 2) ^ 2)"
    by (subst step) (simp add: defs)
  show "adam_v_mean stepped_session = (1 - beta2) * (- 1 / (softplus 2) ^ 2) * (- 1 / (softplus 2) ^ 2)"
    by (subst step) (simp add: defs)
  show "beta1_power stepped_session = beta1 * beta1"
    by (subst step) (simp add: global_variables_initializer_def)
  show "beta2_power stepped_session = beta2 * beta2"
    by (subst step) (simp add: global_variables_initializer_def)
qed

lemma zero_score_step_runs:
  "distribution_opt steady_env zero_score_session [blank_image] [[1]] = Inr after_zero_score"
proof -
  have "\<exists>st'. distribution_opt steady_env zero_score_session [blank_image] [[1]] = Inr st'"
    by (rule distribution_opt_total) (simp_all add: blank_image_def)
  then show ?thesis
    by (auto simp: after_zero_score_def)
qed

text \<open>
  The claim as stated fails once the optimiser has seen a gradient: after one step on the
  sample \<open>\<theta> = 1\<close> with score \<open>1\<close>, a step with score \<open>0\<close> still moves the mean.
\<close>

theorem zero_reward_still_moves:
  "distribution_opt steady_env zero_score_session [blank_image] [[1]] = Inr after_zero_score \<and>
   proba steady_env zero_score_session [blank_image] = [0] \<and>
   detector_params_mean after_zero_score \<noteq> detector_params_mean zero_score_session"
proof -
  have p: "proba steady_env zero_score_session [blank_image] = [0]"
    by (simp add: proba_def steady_env_def zero_score_session_def)
  have zero: "\<forall>x\<in>set [blank_image].
      discriminator steady_env (discriminator_weights zero_score_session) x = 0"
    by (simp add: steady_env_def zero_score_session_def)
  have pos: "0 < softplus 2"
    by (rule softplus_pos)
  define g :: real where "g = - 1 / (softplus 2) ^ 2"
  have g: "g \<noteq> 0"
    using pos by (simp add: g_def)
  have m: "adam_m_mean zero_score_session = (1 - beta1) * g"
    and v: "adam_v_mean zero_score_session = (1 - beta2) * g * g"
    and b1: "beta1_power zero_score_session = beta1 * beta1"
    and b2: "beta2_power zero_score_session = beta2 * beta2"
    by (simp_all add: zero_score_session_def stepped_session_fields g_def)
  define A where "A = learning_rate * sqrt (1 - beta2 * beta2) / (1 - beta1 * beta1)"
  define B where "B = beta1 * ((1 - beta1) * g)"
  define C where "C = sqrt (beta2 * ((1 - beta2) * g * g)) + epsilon"
  have "A \<noteq> 0"
    by (simp add: A_def learning_rate_def beta1_def beta2_def)
  moreover have "B \<noteq> 0"
    using g by (simp add: B_def beta1_def)
  moreover have "0 \<le> beta2 * ((1 - beta2) * g * g)"
    by (simp add: beta2_def)
  then have "0 < C"
    unfolding C_def by (intro add_nonneg_pos) (simp_all add: epsilon_def)
  ultimately have t: "A * B / C \<noteq> 0"
    by simp
  from zero_reward_step(3) [OF zero_score_step_runs zero]
  have "detector_params_mean after_zero_score = detector_params_mean zero_score_session - A * B / C"
    by (simp add: m v b1 b2 A_def B_def C_def)
  with t have "detector_params_mean after_zero_score \<noteq> detector_params_mean zero_score_session"
    by simp
  with zero_score_step_runs p show ?thesis
    by simp
qed

section \<open>The training steps and the loop\<close>

lemma params_sample_props:
  assumes "params_sample env st k = (cs, st1)"
  shows "length cs = k" and "\<forall>c\<in>set cs. length c = 1"
    and "st1 = st\<lparr>random_state := random_state st + k\<rparr>"
  using assms by (auto simp: params_sample_def)

lemma vstack_pair: "vstack [xs, ys] = Inr zs \<Longrightarrow> zs = xs @ ys"
  by (auto simp: vstack_def Let_def split: if_splits)

text \<open>What a successful call of each step has done.\<close>

lemma train_discriminator_effect:
  assumes "train_discriminator env n_samples n_epoches wd = Inr wd'"
  shows "\<exists>params X_gen.
           get_data (workers env) (pool wd)
               (fst (params_sample env (session wd) (n_samples div 8)))
             = (Inr (params, X_gen), pool wd')
           \<and> session wd' = (snd (params_sample env (session wd) (n_samples div 8)))
               \<lparr>discriminator_weights :=
                  discriminator_fit env (X_gen @ X_true_train wd)
                    (replicate (length X_gen) 0 @ replicate (length (X_true_train wd)) 1)
                    n_epoches (discriminator_weights (session wd))\<rparr>"
    and "generator_mean_history wd' = generator_mean_history wd"
    and "generator_sigma_history wd' = generator_sigma_history wd"
    and "X_true_train wd' = X_true_train wd"
proof -
  obtain cs st1 where ps: "params_sample env (session wd) (n_samples div 8) = (cs, st1)"
    by (cases "params_sample env (session wd) (n_samples div 8)")
  note st1 = params_sample_props(3) [OF ps]
  obtain r m1 where gd: "get_data (workers env) (pool wd) cs = (r, m1)"
    by (cases "get_data (workers env) (pool wd) cs")
  from assms ps gd obtain params X_gen where r: "r = Inr (params, X_gen)"
    by (cases r) (auto simp: train_discriminator_def)
  from assms ps gd r obtain X_train where vs: "vstack [X_gen, X_true_train wd] = Inr X_train"
    by (cases "vstack [X_gen, X_true_train wd]") (auto simp: train_discriminator_def)
  note xt = vstack_pair [OF vs]
  from assms ps gd r vs
  have wd': "wd' = wd\<lparr>session := st1\<lparr>discriminator_weights :=
                discriminator_fit env X_train
                  (replicate (length X_gen) 0 @ replicate (length (X_true_train wd)) 1) n_epoches
                  (discriminator_weights st1)\<rparr>,
              pool := m1\<rparr>"
    by (simp add: train_discriminator_def Let_def)
  show "generator_mean_history wd' = generator_mean_history wd"
    and "generator_sigma_history wd' = generator_sigma_history wd"
    and "X_true_train wd' = X_true_train wd"
    by (simp_all add: wd')
  have "get_data (workers env) (pool wd) (fst (params_sample env (session wd) (n_samples div 8)))
      = (Inr (params, X_gen), pool wd')"
    by (simp add: ps gd r wd')
  moreover have "session wd' = (snd (params_sample env (session wd) (n_samples div 8)))
               \<lparr>discriminator_weights :=
                  discriminator_fit env (X_gen @ X_true_train wd)
                    (replicate (length X_gen) 0 @ replicate (length (X_true_train wd)) 1)
                    n_epoches (discriminator_weights (session wd))\<rparr>"
    by (simp add: ps wd' xt st1)
  ultimately show "\<exists>params X_gen.
           get_data (workers env) (pool wd)
               (fst (params_sample env (session wd) (n_samples div 8)))
             = (Inr (params, X_gen), pool wd')
           \<and> session wd' = (snd (params_sample env (session wd) (n_samples div 8)))
               \<lparr>discriminator_weights :=
                  discriminator_fit env (X_gen @ X_true_train wd)
                    (replicate (length X_gen) 0 @ replicate (length (X_true_train wd)) 1)
                    n_epoches (discriminator_weights (session wd))\<rparr>"
    by blast
qed

lemma train_generator_effect:
  assumes "train_generator env wd = Inr wd'"
  shows "\<exists>params X_gen.
           get_data (workers env) (pool wd) (fst (params_sample env (session wd) (2 ^ 8)))
             = (Inr (params, X_gen), pool wd')
           \<and> distribution_opt env (snd (params_sample env (session wd) (2 ^ 8))) X_gen params
             = Inr (session wd')"
    and "generator_mean_history wd' = generator_mean_history wd"
    and "generator_sigma_history wd' = generator_sigma_history wd"
    and "X_true_train wd' = X_true_train wd"
    and "discriminator_weights (session wd') = discriminator_weights (session wd)"
proof -
  obtain cs st1 where ps: "params_sample env (session wd) (2 ^ 8) = (cs, st1)"
    by (cases "params_sample env (session wd) (2 ^ 8)")
  note st1 = params_sample_props(3) [OF ps]
  obtain r m1 where gd: "get_data (workers env) (pool wd) cs = (r, m1)"
    by (cases "get_data (workers env) (pool wd) cs")
  from assms ps gd obtain params X_gen where r: "r = Inr (params, X_gen)"
    by (cases r) (auto simp: train_generator_def)
  from assms ps gd r obtain st2 where run: "distribution_opt env st1 X_gen params = Inr st2"
    by (cases "distribution_opt env st1 X_gen params") (auto simp: train_generator_def)
  from assms ps gd r run
  have wd': "wd' = wd\<lparr>session := st2, pool := m1\<rparr>"
    by (simp add: train_generator_def)
  show "generator_mean_history wd' = generator_mean_history wd"
    and "generator_sigma_history wd' = generator_sigma_history wd"
    and "X_true_train wd' = X_true_train wd"
    by (simp_all add: wd')
  show "discriminator_weights (session wd') = discriminator_weights (session wd)"
    using distribution_opt_frame(1) [OF run] by (simp add: wd' st1)
  have "get_data (workers env) (pool wd) (fst (params_sample env (session wd) (2 ^ 8)))
      = (Inr (params, X_gen), pool wd')"
    unfolding ps fst_conv gd r by (simp add: wd')
  moreover have "distribution_opt env (snd (params_sample env (session wd) (2 ^ 8))) X_gen params
      = Inr (session wd')"
    unfolding ps snd_conv run by (simp add: wd')
  ultimately show "\<exists>params X_gen.
           get_data (workers env) (pool wd) (fst (params_sample env (session wd) (2 ^ 8)))
             = (Inr (params, X_gen), pool wd')
           \<and> distribution_opt env (snd (params_sample env (session wd) (2 ^ 8))) X_gen params
             = Inr (session wd')"
    by blast
qed

lemma iteration_effect:
  assumes "iteration env i wd = Inr wd'"
  shows "\<exists>wd1 wd2. train_discriminator env (2 ^ 12) 1 wd = Inr wd1
           \<and> train_generator env wd1 = Inr wd2
           \<and> wd' = wd2\<lparr>generator_mean_history :=
                          (generator_mean_history wd2)[i := detector_params_mean (session wd2)],
                        generator_sigma_history :=
                          (generator_sigma_history wd2)
                            [i := softplus (detector_params_sigma_raw (session wd2))]\<rparr>"
    and "i < length (generator_mean_history wd)"
    and "i < length (generator_sigma_history wd)"
    and "generator_mean_history wd' =
           (generator_mean_history wd)[i := detector_params_mean (session wd')]"
    and "generator_sigma_history wd' =
           (generator_sigma_history wd)[i := softplus (detector_params_sigma_raw (session wd'))]"
    and "X_true_train wd' = X_true_train wd"
proof -
  obtain wd1 where td: "train_discriminator env (2 ^ 12) 1 wd = Inr wd1"
    using assms unfolding iteration_def
    by (cases "train_discriminator env (2 ^ 12) 1 wd") simp_all
  obtain wd2 where tg: "train_generator env wd1 = Inr wd2"
    using assms unfolding iteration_def td sum.case
    by (cases "train_generator env wd1") simp_all
  note d = train_discriminator_effect(2-4) [OF td]
  note g = train_generator_effect(2-4) [OF tg]
  have gp: "get_distribution_params (session wd2) =
      ([detector_params_mean (session wd2)], [softplus (detector_params_sigma_raw (session wd2))])"
    by (simp add: get_distribution_params_def detector_params_sigma_def)
  from assms
  have i: "i < length (generator_mean_history wd2)" "i < length (generator_sigma_history wd2)"
    and wd': "wd' = wd2\<lparr>generator_mean_history :=
                          (generator_mean_history wd2)[i := detector_params_mean (session wd2)],
                        generator_sigma_history :=
                          (generator_sigma_history wd2)
                            [i := softplus (detector_params_sigma_raw (session wd2))]\<rparr>"
    unfolding iteration_def td tg sum.case gp prod.case
    by (auto simp: store_at_def split: if_splits)
  from i show "i < length (generator_mean_history wd)" "i < length (generator_sigma_history wd)"
    by (simp_all add: d g)
  show "X_true_train wd' = X_true_train wd"
    by (simp add: wd' d g)
  show "generator_mean_history wd' =
           (generator_mean_history wd)[i := detector_params_mean (session wd')]"
    and "generator_sigma_history wd' =
           (generator_sigma_history wd)[i := softplus (detector_params_sigma_raw (session wd'))]"
    by (simp_all add: wd' d g)
  from td tg wd' show "\<exists>wd1 wd2. train_discriminator env (2 ^ 12) 1 wd = Inr wd1
           \<and> train_generator env wd1 = Inr wd2
           \<and> wd' = wd2\<lparr>generator_mean_history :=
                          (generator_mean_history wd2)[i := detector_params_mean (session wd2)],
                        generator_sigma_history :=
                          (generator_sigma_history wd2)
                            [i := softplus (detector_params_sigma_raw (session wd2))]\<rparr>"
    by blast
qed

text \<open>The worlds the loop passes through.\<close>

lemma iterations_chain:
  "iterations env [a..<a + k] wd = Inr wd' \<Longrightarrow>
     \<exists>ws. length ws = Suc k \<and> ws ! 0 = wd \<and> ws ! k = wd'
       \<and> (\<forall>j<k. iteration env (a + j) (ws ! j) = Inr (ws ! Suc j))"
proof (induction k arbitrary: a wd)
  case 0
  then have "wd' = wd"
    by simp
  then show ?case
    by (intro exI [of _ "[wd]"]) simp
next
  case (Suc k)
  have upt: "[a..<a + Suc k] = a # [Suc a..<Suc a + k]"
    by (simp add: upt_conv_Cons)
  from Suc.prems obtain wd1 where it: "iteration env a wd = Inr wd1"
    and rest: "iterations env [Suc a..<Suc a + k] wd1 = Inr wd'"
    unfolding upt by (auto split: sum.splits)
  from Suc.IH [OF rest] obtain ws where ws: "length ws = Suc k" "ws ! 0 = wd1" "ws ! k = wd'"
    "\<forall>j<k. iteration env (Suc a + j) (ws ! j) = Inr (ws ! Suc j)"
    by blast
  have "iteration env (a + j) ((wd # ws) ! j) = Inr ((wd # ws) ! Suc j)" if "j < Suc k" for j
  proof (cases j)
    case 0
    with it ws(2) show ?thesis by simp
  next
    case (Suc j')
    with that ws(4) show ?thesis by simp
  qed
  with ws(1,3) show ?case
    by (intro exI [of _ "wd # ws"]) simp
qed

lemma chain_histories:
  assumes "\<forall>j<k. iteration env (a + j) (ws ! j) = Inr (ws ! Suc j)"
  shows "length (generator_mean_history (ws ! k)) = length (generator_mean_history (ws ! 0))
       \<and> length (generator_sigma_history (ws ! k)) = length (generator_sigma_history (ws ! 0))
       \<and> X_true_train (ws ! k) = X_true_train (ws ! 0)
       \<and> (\<forall>j<k. generator_mean_history (ws ! k) ! (a + j) = detector_params_mean (session (ws ! Suc j))
              \<and> generator_sigma_history (ws ! k) ! (a + j) =
                  softplus (detector_params_sigma_raw (session (ws ! Suc j))))"
  using assms
proof (induction k)
  case 0
  show ?case by simp
next
  case (Suc k)
  from Suc.prems have it: "iteration env (a + k) (ws ! k) = Inr (ws ! Suc k)"
    and before: "\<forall>j<k. iteration env (a + j) (ws ! j) = Inr (ws ! Suc j)"
    by simp_all
  note ih = Suc.IH [OF before]
  note e = iteration_effect(2-6) [OF it]
  have "generator_mean_history (ws ! Suc k) ! (a + j) = detector_params_mean (session (ws ! Suc j))
      \<and> generator_sigma_history (ws ! Suc k) ! (a + j) =
          softplus (detector_params_sigma_raw (session (ws ! Suc j)))" if "j < Suc k" for j
  proof (cases "j = k")
    case True
    with e(1,2) show ?thesis
      by (subst e(3), subst e(4)) simp
  next
    case False
    with that have "j < k"
      by simp
    with ih False show ?thesis
      by (subst e(3), subst e(4)) simp
  qed
  moreover have "length (generator_mean_history (ws ! Suc k)) = length (generator_mean_history (ws ! 0))"
    "length (generator_sigma_history (ws ! Suc k)) = length (generator_sigma_history (ws ! 0))"
    using ih by (subst e(3), simp, subst e(4), simp)
  moreover have "X_true_train (ws ! Suc k) = X_true_train (ws ! 0)"
    using ih e(5) by simp
  ultimately show ?case
    by blast
qed

text \<open>With workers that complete every request by eight images of the right size, each
  step runs to its end and leaves the pool idle.\<close>

lemma train_discriminator_total:
  assumes idle: "pending (pool wd) = []"
    and good: "\<forall>t. \<exists>i b. workers env t = Deliver i b \<and> length b = 8
                 \<and> (\<forall>img\<in>set b. length img = image_size)"
    and k: "0 < n_samples div 8"
    and xt: "\<forall>img\<in>set (X_true_train wd). length img = image_size"
  shows "\<exists>wd'. train_discriminator env n_samples n_epoches wd = Inr wd' \<and> pending (pool wd') = []"
proof -
  obtain cs st1 where ps: "params_sample env (session wd) (n_samples div 8) = (cs, st1)"
    by (cases "params_sample env (session wd) (n_samples div 8)")
  note p = params_sample_props [OF ps]
  from p(1) k have ne: "cs \<noteq> []"
    by auto
  have pos: "(0::nat) < 8"
    by simp
  from get_data_total [OF idle ne p(2) pos good] obtain params samples m'
    where gd: "get_data (workers env) (pool wd) cs = (Inr (params, samples), m')"
      and e: "pending m' = []" and imgs: "\<forall>img\<in>set samples. length img = image_size"
    by blast
  have "\<forall>r\<in>set (concat [samples, X_true_train wd]). length r = image_size"
    using imgs xt by auto
  then have vs: "vstack [samples, X_true_train wd] = Inr (concat [samples, X_true_train wd])"
    by (intro vstack_uniform [where n = image_size]) simp_all
  show ?thesis
    unfolding train_discriminator_def ps gd vs prod.case sum.case Let_def using e by simp
qed

lemma train_generator_total:
  assumes idle: "pending (pool wd) = []"
    and good: "\<forall>t. \<exists>i b. workers env t = Deliver i b \<and> length b = 8
                 \<and> (\<forall>img\<in>set b. length img = image_size)"
  shows "\<exists>wd'. train_generator env wd = Inr wd' \<and> pending (pool wd') = []"
proof -
  obtain cs st1 where ps: "params_sample env (session wd) (2 ^ 8) = (cs, st1)"
    by (cases "params_sample env (session wd) (2 ^ 8)")
  note p = params_sample_props [OF ps]
  from p(1) have ne: "cs \<noteq> []"
    by auto
  have pos: "(0::nat) < 8"
    by simp
  from get_data_total [OF idle ne p(2) pos good] obtain params samples m'
    where gd: "get_data (workers env) (pool wd) cs = (Inr (params, samples), m')"
      and e: "pending m' = []"
      and lp: "length params = 8 * length cs" and ls: "length samples = 8 * length cs"
      and rows: "\<forall>row\<in>set params. length row = 1"
      and imgs: "\<forall>img\<in>set samples. length img = image_size"
    by blast
  have "params \<noteq> []"
    using lp ne by auto
  moreover have "length samples = length params"
    using lp ls by simp
  ultimately obtain st2 where run: "distribution_opt env st1 samples params = Inr st2"
    using distribution_opt_total [OF imgs rows] by blast
  show ?thesis
    unfolding train_generator_def ps gd run prod.case sum.case using e by simp
qed

lemma iteration_total:
  assumes idle: "pending (pool wd) = []"
    and good: "\<forall>t. \<exists>i b. workers env t = Deliver i b \<and> length b = 8
                 \<and> (\<forall>img\<in>set b. length img = image_size)"
    and xt: "\<forall>img\<in>set (X_true_train wd). length img = image_size"
    and i: "i < length (generator_mean_history wd)" "i < length (generator_sigma_history wd)"
  shows "\<exists>wd'. iteration env i wd = Inr wd' \<and> pending (pool wd') = []"
proof -
  have "(0::nat) < 2 ^ 12 div 8"
    by simp
  from train_discriminator_total [OF idle good this xt] obtain wd1
    where td: "train_discriminator env (2 ^ 12) 1 wd = Inr wd1" and e1: "pending (pool wd1) = []"
    by blast
  from train_generator_total [OF e1 good] obtain wd2
    where tg: "train_generator env wd1 = Inr wd2" and e2: "pending (pool wd2) = []"
    by blast
  note d = train_discriminator_effect(2-4) [OF td]
  note g = train_generator_effect(2-4) [OF tg]
  have "i < length (generator_mean_history wd2)" "i < length (generator_sigma_history wd2)"
    using i by (simp_all add: d g)
  then show ?thesis
    unfolding iteration_def td tg sum.case using e2
    by (simp add: store_at_def split: prod.splits)
qed

lemma iterations_total:
  assumes "pending (pool wd) = []"
    and good: "\<forall>t. \<exists>i b. workers env t = Deliver i b \<and> length b = 8
                 \<and> (\<forall>img\<in>set b. length img = image_size)"
    and "\<forall>img\<in>set (X_true_train wd). length img = image_size"
    and "\<forall>i\<in>set indices. i < length (generator_mean_history wd)
                            \<and> i < length (generator_sigma_history wd)"
  shows "\<exists>wd'. iterations env indices wd = Inr wd'"
  using assms(1,3,4)
proof (induction indices arbitrary: wd)
  case Nil
  show ?case by simp
next
  case (Cons i indices)
  from Cons.prems(3) have i: "i < length (generator_mean_history wd)"
    "i < length (generator_sigma_history wd)"
    by simp_all
  from iteration_total [OF Cons.prems(1) good Cons.prems(2) i] obtain wd1
    where it: "iteration env i wd = Inr wd1" and e1: "pending (pool wd1) = []"
    by blast
  note h1 = iteration_effect(4,5) [OF it]
  note x1 = iteration_effect(6) [OF it]
  have "\<forall>i\<in>set indices. i < length (generator_mean_history wd1)
                            \<and> i < length (generator_sigma_history wd1)"
    using Cons.prems(3) by (subst h1(1), subst h1(2)) simp
  from Cons.IH [OF e1 _ this] Cons.prems(2) x1 obtain wd'
    where "iterations env indices wd1 = Inr wd'"
    by auto
  then show ?case
    by (simp add: it)
qed

lemma orchestrator_total:
  assumes idle: "pending (pool wd) = []"
    and good: "\<forall>t. \<exists>i b. workers env t = Deliver i b \<and> length b = 8
                 \<and> (\<forall>img\<in>set b. length img = image_size)"
    and xt: "\<forall>img\<in>set (X_true_train wd). length img = image_size"
  shows "\<exists>wd'. orchestrator env wd = Inr wd'"
proof -
  have "(0::nat) < 2 ^ 16 div 8"
    by simp
  from train_discriminator_total [OF idle good this xt] obtain wd1
    where td: "train_discriminator env (2 ^ 16) 4 wd = Inr wd1" and e1: "pending (pool wd1) = []"
    by blast
  note d = train_discriminator_effect(2-4) [OF td]
  let ?wd = "wd1\<lparr>generator_mean_history := map (uninitialized env) [0..<n_iterations],
      generator_sigma_history := map (\<lambda>i. uninitialized env (n_iterations + i)) [0..<n_iterations]\<rparr>"
  have "\<exists>wd'. iterations env [0..<n_iterations] ?wd = Inr wd'"
    using e1 xt d(3) by (intro iterations_total good) simp_all
  then show ?thesis
    unfolding orchestrator_def pretraining_def td sum.case variational_optimization_def .
qed

lemma steady_env_good:
  "\<forall>t. \<exists>i b. workers steady_env t = Deliver i b \<and> length b = 8
         \<and> (\<forall>img\<in>set b. length img = image_size)"
  using blank_batch_good by (simp add: steady_env_def)

lemma initial_world_ready:
  "pending (pool initial_world) = []"
  "\<forall>img\<in>set (X_true_train initial_world). length img = image_size"
  using blank_batch_good by (simp_all add: initial_world_def idle_mill_def)

lemma orchestrator_result:
  assumes "orchestrator (env :: 'w environment) wd = Inr wd'"
  shows "(\<exists>ws. length ws = Suc n_iterations \<and> wd' = ws ! n_iterations \<and>
         (\<exists>params X.
            get_data (workers env) (pool wd)
                (fst (params_sample env (session wd) (2 ^ 16 div 8)))
              = (Inr (params, X), pool (ws ! 0)) \<and>
            session (ws ! 0) = (snd (params_sample env (session wd) (2 ^ 16 div 8)))
              \<lparr>discriminator_weights :=
                 discriminator_fit env (X @ X_true_train wd)
                   (replicate (length X) 0 @ replicate (length (X_true_train wd)) 1)
                   4 (discriminator_weights (session wd))\<rparr>) \<and>
         (\<forall>i<n_iterations. \<exists>(fitted :: 'w world) params_d X_d params_g X_g.
            get_data (workers env) (pool (ws ! i))
                (fst (params_sample env (session (ws ! i)) (2 ^ 12 div 8)))
              = (Inr (params_d, X_d), pool fitted) \<and>
            session fitted = (snd (params_sample env (session (ws ! i)) (2 ^ 12 div 8)))
              \<lparr>discriminator_weights :=
                 discriminator_fit env (X_d @ X_true_train wd)
                   (replicate (length X_d) 0 @ replicate (length (X_true_train wd)) 1)
                   1 (discriminator_weights (session (ws ! i)))\<rparr> \<and>
            get_data (workers env) (pool fitted)
                (fst (params_sample env (session fitted) (2 ^ 8)))
              = (Inr (params_g, X_g), pool (ws ! Suc i)) \<and>
            distribution_opt env (snd (params_sample env (session fitted) (2 ^ 8))) X_g params_g
              = Inr (session (ws ! Suc i)) \<and>
            generator_mean_history wd' ! i = detector_params_mean (session (ws ! Suc i)) \<and>
            generator_sigma_history wd' ! i =
              softplus (detector_params_sigma_raw (session (ws ! Suc i)))) \<and>
         length (generator_mean_history wd') = n_iterations \<and>
         length (generator_sigma_history wd') = n_iterations)"
proof -
  obtain wd0 where td: "train_discriminator env (2 ^ 16) 4 wd = Inr wd0"
    using assms unfolding orchestrator_def pretraining_def
    by (cases "train_discriminator env (2 ^ 16) 4 wd") simp_all
  note d = train_discriminator_effect [OF td]
  let ?wd = "wd0\<lparr>generator_mean_history := map (uninitialized env) [0..<n_iterations],
      generator_sigma_history := map (\<lambda>i. uninitialized env (n_iterations + i)) [0..<n_iterations]\<rparr>"
  have "iterations env [0..<n_iterations] ?wd = Inr wd'"
    using assms unfolding orchestrator_def pretraining_def td sum.case variational_optimization_def .
  then have "iterations env [0..<0 + n_iterations] ?wd = Inr wd'"
    by simp
  from iterations_chain [OF this] obtain ws where ws: "length ws = Suc n_iterations"
    "ws ! 0 = ?wd" "ws ! n_iterations = wd'"
    "\<forall>j<n_iterations. iteration env (0 + j) (ws ! j) = Inr (ws ! Suc j)"
    by blast
  note h = chain_histories [OF ws(4)]
  have xt: "X_true_train (ws ! j) = X_true_train wd" if "j < n_iterations" for j
  proof -
    from that ws(4) have "\<forall>j'<j. iteration env (0 + j') (ws ! j') = Inr (ws ! Suc j')"
      by simp
    from chain_histories [OF this] show ?thesis
      by (simp add: ws(2) d(4))
  qed
  have pre: "\<exists>params X.
            get_data (workers env) (pool wd)
                (fst (params_sample env (session wd) (2 ^ 16 div 8)))
              = (Inr (params, X), pool (ws ! 0)) \<and>
            session (ws ! 0) = (snd (params_sample env (session wd) (2 ^ 16 div 8)))
              \<lparr>discriminator_weights :=
                 discriminator_fit env (X @ X_true_train wd)
                   (replicate (length X) 0 @ replicate (length (X_true_train wd)) 1)
                   4 (discriminator_weights (session wd))\<rparr>"
  proof -
    have "pool (ws ! 0) = pool wd0" "session (ws ! 0) = session wd0"
      by (simp_all add: ws(2))
    with d(1) show ?thesis
      by simp
  qed
  have step: "\<exists>(fitted :: 'w world) params_d X_d params_g X_g.
            get_data (workers env) (pool (ws ! i))
                (fst (params_sample env (session (ws ! i)) (2 ^ 12 div 8)))
              = (Inr (params_d, X_d), pool fitted) \<and>
            session fitted = (snd (params_sample env (session (ws ! i)) (2 ^ 12 div 8)))
              \<lparr>discriminator_weights :=
                 discriminator_fit env (X_d @ X_true_train wd)
                   (replicate (length X_d) 0 @ replicate (length (X_true_train wd)) 1)
                   1 (discriminator_weights (session (ws ! i)))\<rparr> \<and>
            get_data (workers env) (pool fitted)
                (fst (params_sample env (session fitted) (2 ^ 8)))
              = (Inr (params_g, X_g), pool (ws ! Suc i)) \<and>
            distribution_opt env (snd (params_sample env (session fitted) (2 ^ 8))) X_g params_g
              = Inr (session (ws ! Suc i)) \<and>
            generator_mean_history wd' ! i = detector_params_mean (session (ws ! Suc i)) \<and>
            generator_sigma_history wd' ! i =
              softplus (detector_params_sigma_raw (session (ws ! Suc i)))"
    if i: "i < n_iterations" for i
  proof -
    from ws(4) i have it: "iteration env i (ws ! i) = Inr (ws ! Suc i)"
      by simp
    from iteration_effect(1) [OF it] obtain wd1 wd2
      where td1: "train_discriminator env (2 ^ 12) 1 (ws ! i) = Inr wd1"
        and tg: "train_generator env wd1 = Inr wd2"
        and nx: "ws ! Suc i = wd2\<lparr>generator_mean_history :=
                          (generator_mean_history wd2)[i := detector_params_mean (session wd2)],
                        generator_sigma_history :=
                          (generator_sigma_history wd2)
                            [i := softplus (detector_params_sigma_raw (session wd2))]\<rparr>"
      by blast
    have same: "pool (ws ! Suc i) = pool wd2" "session (ws ! Suc i) = session wd2"
      by (simp_all add: nx)
    from train_discriminator_effect(1) [OF td1] obtain params_d X_d
      where fit: "get_data (workers env) (pool (ws ! i))
                (fst (params_sample env (session (ws ! i)) (2 ^ 12 div 8)))
              = (Inr (params_d, X_d), pool wd1)"
        "session wd1 = (snd (params_sample env (session (ws ! i)) (2 ^ 12 div 8)))
              \<lparr>discriminator_weights :=
                 discriminator_fit env (X_d @ X_true_train (ws ! i))
                   (replicate (length X_d) 0 @ replicate (length (X_true_train (ws ! i))) 1)
                   1 (discriminator_weights (session (ws ! i)))\<rparr>"
      by blast
    from train_generator_effect(1) [OF tg] obtain params_g X_g
      where upd: "get_data (workers env) (pool wd1)
                (fst (params_sample env (session wd1) (2 ^ 8)))
              = (Inr (params_g, X_g), pool wd2)"
        "distribution_opt env (snd (params_sample env (session wd1) (2 ^ 8))) X_g params_g
              = Inr (session wd2)"
      by blast
    from h i ws(3)
    have snap: "generator_mean_history wd' ! i = detector_params_mean (session (ws ! Suc i))"
      "generator_sigma_history wd' ! i =
              softplus (detector_params_sigma_raw (session (ws ! Suc i)))"
      by auto
    show ?thesis
      apply (rule exI [of _ wd1])
      apply (rule exI [of _ params_d])
      apply (rule exI [of _ X_d])
      apply (rule exI [of _ params_g])
      apply (rule exI [of _ X_g])
      apply (intro conjI)
           apply (rule fit(1))
          apply (rule fit(2) [unfolded xt [OF i]])
         apply (rule upd(1) [folded same(1)])
        apply (rule upd(2) [folded same(2)])
       apply (rule snap(1))
      apply (rule snap(2))
      done
  qed
  have len: "length (generator_mean_history wd') = n_iterations"
    "length (generator_sigma_history wd') = n_iterations"
    using h by (simp_all add: ws(2,3))
  show ?thesis
    apply (rule exI [of _ ws])
    apply (intro conjI allI impI)
         apply (rule ws(1))
        apply (rule ws(3) [symmetric])
       apply (rule pre)
      apply (erule step)
     apply (rule len(1))
    apply (rule len(2))
    done
qed

text \<open>
  C8. The loop count is \<open>256\<close>. A run of the orchestrator that ends passes through \<open>257\<close>
  worlds \<open>ws\<close>: the first is reached by the one pretraining step, which draws
  \<open>2\<^sup>1\<^sup>6 / 8\<close> configurations, gets their images and sets the discriminator's weights to
  the result of fitting them against the reference images for four epochs; each of the
  \<open>256\<close> iterations, whatever values it meets, leads from world \<open>i\<close> to world \<open>i + 1\<close> by
  first fitting the discriminator for one epoch on the images of \<open>2\<^sup>1\<^sup>2 / 8\<close> fresh
  configurations, then running the distribution's update on the images and parameters
  of \<open>2\<^sup>8\<close> fresh configurations with the fitted weights, then storing at index \<open>i\<close> of
  the two history arrays the \<open>\<mu>\<close> and \<open>\<sigma>\<close> that this update has produced. The arrays have
  \<open>256\<close> entries, and the run ends in the last world. With an idle pool, workers that
  complete every request by eight images of \<open>32 \<times> 32 \<times> 1\<close> values, and reference images
  of that size, the run does end.
\<close>

theorem orchestrator_schedule:
  "n_iterations = 256 \<and>
   (orchestrator (env :: 'w environment) wd = Inr wd' \<longrightarrow>
      (\<exists>ws. length ws = Suc n_iterations \<and> wd' = ws ! n_iterations \<and>
         (\<exists>params X.
            get_data (workers env) (pool wd)
                (fst (params_sample env (session wd) (2 ^ 16 div 8)))
              = (Inr (params, X), pool (ws ! 0)) \<and>
            session (ws ! 0) = (snd (params_sample env (session wd) (2 ^ 16 div 8)))
              \<lparr>discriminator_weights :=
                 discriminator_fit env (X @ X_true_train wd)
                   (replicate (length X) 0 @ replicate (length (X_true_train wd)) 1)
                   4 (discriminator_weights (session wd))\<rparr>) \<and>
         (\<forall>i<n_iterations. \<exists>(fitted :: 'w world) params_d X_d params_g X_g.
            get_data (workers env) (pool (ws ! i))
                (fst (params_sample env (session (ws ! i)) (2 ^ 12 div 8)))
              = (Inr (params_d, X_d), pool fitted) \<and>
            session fitted = (snd (params_sample env (session (ws ! i)) (2 ^ 12 div 8)))
              \<lparr>discriminator_weights :=
                 discriminator_fit env (X_d @ X_true_train wd)
                   (replicate (length X_d) 0 @ replicate (length (X_true_train wd)) 1)
                   1 (discriminator_weights (session (ws ! i)))\<rparr> \<and>
            get_data (workers env) (pool fitted)
                (fst (params_sample env (session fitted) (2 ^ 8)))
              = (Inr (params_g, X_g), pool (ws ! Suc i)) \<and>
            distribution_opt env (snd (params_sample env (session fitted) (2 ^ 8))) X_g params_g
              = Inr (session (ws ! Suc i)) \<and>
            generator_mean_history wd' ! i = detector_params_mean (session (ws ! Suc i)) \<and>
            generator_sigma_history wd' ! i =
              softplus (detector_params_sigma_raw (session (ws ! Suc i)))) \<and>
         length (generator_mean_history wd') = n_iterations \<and>
         length (generator_sigma_history wd') = n_iterations))
   \<and> (pending (pool wd) = []
        \<and> (\<forall>t. \<exists>i b. workers env t = Deliver i b \<and> length b = 8
                  \<and> (\<forall>img\<in>set b. length img = image_size))
        \<and> (\<forall>img\<in>set (X_true_train wd). length img = image_size) \<longrightarrow>
      (\<exists>wd'. orchestrator env wd = Inr wd'))"
proof (intro conjI impI)
  show "n_iterations = 256"
    by (rule n_iterations_def)
next
  assume "orchestrator env wd = Inr wd'"
  then show "(\<exists>ws. length ws = Suc n_iterations \<and> wd' = ws ! n_iterations \<and>
         (\<exists>params X.
            get_data (workers env) (pool wd)
                (fst (params_sample env (session wd) (2 ^ 16 div 8)))
              = (Inr (params, X), pool (ws ! 0)) \<and>
            session (ws ! 0) = (snd (params_sample env (session wd) (2 ^ 16 div 8)))
              \<lparr>discriminator_weights :=
                 discriminator_fit env (X @ X_true_train wd)
                   (replicate (length X) 0 @ replicate (length (X_true_train wd)) 1)
                   4 (discriminator_weights (session wd))\<rparr>) \<and>
         (\<forall>i<n_iterations. \<exists>(fitted :: 'w world) params_d X_d params_g X_g.
            get_data (workers env) (pool (ws ! i))
                (fst (params_sample env (session (ws ! i)) (2 ^ 12 div 8)))
              = (Inr (params_d, X_d), pool fitted) \<and>
            session fitted = (snd (params_sample env (session (ws ! i)) (2 ^ 12 div 8)))
              \<lparr>discriminator_weights :=
                 discriminator_fit env (X_d @ X_true_train wd)
                   (replicate (length X_d) 0 @ replicate (length (X_true_train wd)) 1)
                   1 (discriminator_weights (session (ws ! i)))\<rparr> \<and>
            get_data (workers env) (pool fitted)
                (fst (params_sample env (session fitted) (2 ^ 8)))
              = (Inr (params_g, X_g), pool (ws ! Suc i)) \<and>
            distribution_opt env (snd (params_sample env (session fitted) (2 ^ 8))) X_g params_g
              = Inr (session (ws ! Suc i)) \<and>
            generator_mean_history wd' ! i = detector_params_mean (session (ws ! Suc i)) \<and>
            generator_sigma_history wd' ! i =
              softplus (detector_params_sigma_raw (session (ws ! Suc i)))) \<and>
         length (generator_mean_history wd') = n_iterations \<and>
         length (generator_sigma_history wd') = n_iterations)"
    by (rule orchestrator_result)
next
  assume "pending (pool wd) = []
        \<and> (\<forall>t. \<exists>i b. workers env t = Deliver i b \<and> length b = 8
                  \<and> (\<forall>img\<in>set b. length img = image_size))
        \<and> (\<forall>img\<in>set (X_true_train wd). length img = image_size)"
  then show "\<exists>wd'. orchestrator env wd = Inr wd'"
    using orchestrator_total [of wd env] by blast
qed

theorem orchestrator_schedule_witness:
  "pending (pool initial_world) = [] \<and>
   (\<forall>t. workers steady_env t = Deliver 0 blank_batch) \<and>
   length blank_batch = 8 \<and>
   list_all (\<lambda>img. length img = image_size) blank_batch \<and>
   X_true_train initial_world = blank_batch \<and>
   orchestrator steady_env initial_world = Inr finished_world \<and>
   n_iterations = 256 \<and>
   (\<exists>ws. length ws = Suc n_iterations \<and> finished_world = ws ! n_iterations \<and>
         (\<exists>params X.
            get_data (workers steady_env) (pool initial_world)
                (fst (params_sample steady_env (session initial_world) (2 ^ 16 div 8)))
              = (Inr (params, X), pool (ws ! 0)) \<and>
            session (ws ! 0) = (snd (params_sample steady_env (session initial_world) (2 ^ 16 div 8)))
              \<lparr>discriminator_weights :=
                 discriminator_fit steady_env (X @ X_true_train initial_world)
                   (replicate (length X) 0 @ replicate (length (X_true_train initial_world)) 1)
                   4 (discriminator_weights (session initial_world))\<rparr>) \<and>
         (\<forall>i<n_iterations. \<exists>(fitted :: real world) params_d X_d params_g X_g.
            get_data (workers steady_env) (pool (ws ! i))
                (fst (params_sample steady_env (session (ws ! i)) (2 ^ 12 div 8)))
              = (Inr (params_d, X_d), pool fitted) \<and>
            session fitted = (snd (params_sample steady_env (session (ws ! i)) (2 ^ 12 div 8)))
              \<lparr>discriminator_weights :=
                 discriminator_fit steady_env (X_d @ X_true_train initial_world)
                   (replicate (length X_d) 0 @ replicate (length (X_true_train initial_world)) 1)
                   1 (discriminator_weights (session (ws ! i)))\<rparr> \<and>
            get_data (workers steady_env) (pool fitted)
                (fst (params_sample steady_env (session fitted) (2 ^ 8)))
              = (Inr (params_g, X_g), pool (ws ! Suc i)) \<and>
            distribution_opt steady_env (snd (params_sample steady_env (session fitted) (2 ^ 8))) X_g params_g
              = Inr (session (ws ! Suc i)) \<and>
            generator_mean_history finished_world ! i = detector_params_mean (session (ws ! Suc i)) \<and>
            generator_sigma_history finished_world ! i =
              softplus (detector_params_sigma_raw (session (ws ! Suc i)))) \<and>
         length (generator_mean_history finished_world) = n_iterations \<and>
         length (generator_sigma_history finished_world) = n_iterations)"
proof -
  note inst = orchestrator_schedule [of steady_env initial_world finished_world]
  from inst initial_world_ready steady_env_good
  have "\<exists>wd'. orchestrator steady_env initial_world = Inr wd'"
    by blast
  then have run: "orchestrator steady_env initial_world = Inr finished_world"
    by (auto simp: finished_world_def)
  from inst have n: "n_iterations = 256"
    by (rule conjunct1)
  from inst run have c: "(\<exists>ws. length ws = Suc n_iterations \<and> finished_world = ws ! n_iterations \<and>
         (\<exists>params X.
            get_data (workers steady_env) (pool initial_world)
                (fst (params_sample steady_env (session initial_world) (2 ^ 16 div 8)))
              = (Inr (params, X), pool (ws ! 0)) \<and>
            session (ws ! 0) = (snd (params_sample steady_env (session initial_world) (2 ^ 16 div 8)))
              \<lparr>discriminator_weights :=
                 discriminator_fit steady_env (X @ X_true_train initial_world)
                   (replicate (length X) 0 @ replicate (length (X_true_train initial_world)) 1)
                   4 (discriminator_weights (session initial_world))\<rparr>) \<and>
         (\<forall>i<n_iterations. \<exists>(fitted :: real world) params_d X_d params_g X_g.
            get_data (workers steady_env) (pool (ws ! i))
                (fst (params_sample steady_env (session (ws ! i)) (2 ^ 12 div 8)))
              = (Inr (params_d, X_d), pool fitted) \<and>
            session fitted = (snd (params_sample steady_env (session (ws ! i)) (2 ^ 12 div 8)))
              \<lparr>discriminator_weights :=
                 discriminator_fit steady_env (X_d @ X_true_train initial_world)
                   (replicate (length X_d) 0 @ replicate (length (X_true_train initial_world)) 1)
                   1 (discriminator_weights (session (ws ! i)))\<rparr> \<and>
            get_data (workers steady_env) (pool fitted)
                (fst (params_sample steady_env (session fitted) (2 ^ 8)))
              = (Inr (params_g, X_g), pool (ws ! Suc i)) \<and>
            distribution_opt steady_env (snd (params_sample steady_env (session fitted) (2 ^ 8))) X_g params_g
              = Inr (session (ws ! Suc i)) \<and>
            generator_mean_history finished_world ! i = detector_params_mean (session (ws ! Suc i)) \<and>
            generator_sigma_history finished_world ! i =
              softplus (detector_params_sigma_raw (session (ws ! Suc i)))) \<and>
         length (generator_mean_history finished_world) = n_iterations \<and>
         length (generator_sigma_history finished_world) = n_iterations)"
    by (rule conjunct2 [THEN conjunct1, THEN mp])
  have w: "\<forall>t. workers steady_env t = Deliver 0 blank_batch"
    by (simp add: steady_env_def)
  have x: "X_true_train initial_world = blank_batch"
    by (simp add: initial_world_def)
  have b: "length blank_batch = 8" "list_all (\<lambda>img. length img = image_size) blank_batch"
    using blank_batch_good by (simp_all add: list_all_iff)
  from initial_world_ready(1) w b x run n c show ?thesis
    by (intro conjI)
qed

lemma distribution_opt_touches:
  assumes "distribution_opt env st X rows = Inr st'"
  shows "st' = st\<lparr>detector_params_mean := detector_params_mean st',
                  detector_params_sigma_raw := detector_params_sigma_raw st',
                  adam_m_mean := adam_m_mean st', adam_v_mean := adam_v_mean st',
                  adam_m_sigma_raw := adam_m_sigma_raw st', adam_v_sigma_raw := adam_v_sigma_raw st',
                  beta1_power := beta1_power st', beta2_power := beta2_power st'\<rparr>"
  using assms
  by (auto simp: distribution_opt_def Let_def split: if_splits sum.splits prod.splits)

text \<open>
  C9. A step of the distribution's optimiser leaves the weights of the discriminator as
  they are: of the session it changes the two variables \<open>\<mu>\<close> and \<open>\<sigma>'\<close>, and with them the
  accumulators and running powers the optimiser keeps for them, and nothing else. The
  same holds for a whole call of \<open>train_generator\<close>.
\<close>

theorem update_leaves_discriminator:
  "(distribution_opt env st X rows = Inr st' \<longrightarrow>
      discriminator_weights st' = discriminator_weights st \<and>
      st' = st\<lparr>detector_params_mean := detector_params_mean st',
                detector_params_sigma_raw := detector_params_sigma_raw st',
                adam_m_mean := adam_m_mean st', adam_v_mean := adam_v_mean st',
                adam_m_sigma_raw := adam_m_sigma_raw st', adam_v_sigma_raw := adam_v_sigma_raw st',
                beta1_power := beta1_power st', beta2_power := beta2_power st'\<rparr>)
   \<and> (train_generator env wd = Inr wd' \<longrightarrow>
        discriminator_weights (session wd') = discriminator_weights (session wd))"
  using distribution_opt_frame(1) [of env st X rows st'] distribution_opt_touches [of env st X rows st']
    train_generator_effect(5) [of env wd wd']
  by blast

theorem update_leaves_discriminator_witness:
  "distribution_opt steady_env (global_variables_initializer 1 0) [blank_image] [[1]] =
     Inr stepped_session \<and>
   train_generator steady_env initial_world = Inr generator_trained \<and>
   discriminator_weights (session initial_world) = 1 \<and>
   discriminator_weights stepped_session = 1 \<and>
   discriminator_weights (session generator_trained) = 1"
proof -
  have "\<exists>wd'. train_generator steady_env initial_world = Inr wd'"
    using train_generator_total [OF initial_world_ready(1) steady_env_good] by blast
  then have run: "train_generator steady_env initial_world = Inr generator_trained"
    by (auto simp: generator_trained_def)
  have w: "discriminator_weights (session initial_world) = 1"
    "discriminator_weights (global_variables_initializer (1::real) 0) = 1"
    by (simp_all add: initial_world_def global_variables_initializer_def)
  from update_leaves_discriminator [of steady_env "global_variables_initializer 1 0"
      "[blank_image]" "[[1]]" stepped_session initial_world generator_trained]
    first_step_runs run w
  have "discriminator_weights stepped_session = 1"
    "discriminator_weights (session generator_trained) = 1"
    by simp_all
  with first_step_runs run w(1) show ?thesis
    by (intro conjI)
qed

end
